theory Spec2Isabelle
  imports Complex_Main "HOL-Library.Log_Nat"
begin

section \<open>The rubric-based grading engine of \<^verbatim>\<open>grade_answers.py\<close>\<close>

text \<open>
  This theory embeds the functions of \<^verbatim>\<open>src/grade_answers.py\<close> in HOL and proves the
  properties its specification states about them.

  Conventions of the embedding:
  \<^item> A Python \<^verbatim>\<open>str\<close> is a \<^typ>\<open>string\<close>; a \<^typ>\<open>char\<close> stands for the Unicode code point
    of the same number, so the texts covered are those over the code points 0..255
    (ASCII and Latin-1). The character classes below are Python's on that range.
  \<^item> A Python \<^verbatim>\<open>float\<close> is the rational number it denotes; every floating-point
    operation is the exact operation followed by \<open>fl\<close>, rounding to the nearest
    IEEE-754 double, ties to even. No value of the program is large enough to overflow.
  \<^item> A Python \<^verbatim>\<open>int\<close> is an \<^typ>\<open>int\<close> or, for counts and lengths, a \<^typ>\<open>nat\<close>.
  \<^item> A \<^verbatim>\<open>dict\<close> with a fixed set of keys is a record; a \<^verbatim>\<open>dict\<close> keyed by question number
    is a map; a key that may be absent is an \<open>option\<close> field.
  \<^item> An exception is the \<open>Inl\<close> branch of a sum.
\<close>

subsection \<open>Characters and strings\<close>

definition isspace :: "char \<Rightarrow> bool" where
  \<comment> \<open>\<^verbatim>\<open>str.isspace\<close>, also the class \<^verbatim>\<open>\s\<close> of \<^verbatim>\<open>re\<close>\<close>
  "isspace c = (of_char c \<in> {9, 10, 11, 12, 13, 28, 29, 30, 31, 32, 133, 160 :: nat})"

definition isdigit :: "char \<Rightarrow> bool" where
  \<comment> \<open>the class \<^verbatim>\<open>\d\<close> of \<^verbatim>\<open>re\<close>\<close>
  "isdigit c = (let n = of_char c :: nat in 48 \<le> n \<and> n \<le> 57)"

definition isword :: "char \<Rightarrow> bool" where
  \<comment> \<open>the class \<^verbatim>\<open>\w\<close> of \<^verbatim>\<open>re\<close>: alphanumeric characters and the underscore\<close>
  "isword c = (let n = of_char c :: nat in
     (48 \<le> n \<and> n \<le> 57) \<or> (65 \<le> n \<and> n \<le> 90) \<or> n = 95 \<or> (97 \<le> n \<and> n \<le> 122) \<or>
     n \<in> {170, 178, 179, 181, 185, 186, 188, 189, 190} \<or>
     (192 \<le> n \<and> n \<le> 214) \<or> (216 \<le> n \<and> n \<le> 246) \<or> (248 \<le> n \<and> n \<le> 255))"

definition lower_char :: "char \<Rightarrow> char" where
  "lower_char c = (let n = of_char c :: nat in
     if (65 \<le> n \<and> n \<le> 90) \<or> (192 \<le> n \<and> n \<le> 222 \<and> n \<noteq> 215) then char_of (n + 32) else c)"

definition lower :: "string \<Rightarrow> string" where
  \<comment> \<open>\<^verbatim>\<open>str.lower\<close>\<close>
  "lower s = map lower_char s"

definition strip :: "string \<Rightarrow> string" where
  \<comment> \<open>\<^verbatim>\<open>str.strip()\<close>: leading and trailing whitespace removed\<close>
  "strip s = rev (dropWhile isspace (rev (dropWhile isspace s)))"

fun startswith :: "string \<Rightarrow> string \<Rightarrow> bool" where
  \<comment> \<open>\<open>startswith s p\<close> is \<^verbatim>\<open>s.startswith(p)\<close>\<close>
  "startswith s [] = True"
| "startswith [] (c # p) = False"
| "startswith (d # s) (c # p) = (d = c \<and> startswith s p)"

fun contains :: "string \<Rightarrow> string \<Rightarrow> bool" where
  \<comment> \<open>\<open>contains s x\<close> is \<^verbatim>\<open>x in s\<close>\<close>
  "contains [] x = (x = [])"
| "contains (c # s) x = (startswith (c # s) x \<or> contains s x)"

definition remove_commas :: "string \<Rightarrow> string" where
  \<comment> \<open>\<^verbatim>\<open>s.replace(',', '')\<close>\<close>
  "remove_commas s = filter (\<lambda>c. c \<noteq> CHR '','') s"

fun join :: "string \<Rightarrow> string list \<Rightarrow> string" where
  \<comment> \<open>\<open>join sep xs\<close> is \<^verbatim>\<open>sep.join(xs)\<close>\<close>
  "join sep [] = []"
| "join sep [x] = x"
| "join sep (x # y # xs) = x @ sep @ join sep (y # xs)"

function split :: "string \<Rightarrow> string list" where
  \<comment> \<open>\<^verbatim>\<open>str.split()\<close>: the maximal runs of non-whitespace characters\<close>
  "split [] = []"
| "split (c # s) =
     (if isspace c then split s
      else takeWhile (\<lambda>d. \<not> isspace d) (c # s) # split (dropWhile (\<lambda>d. \<not> isspace d) s))"
  by pat_completeness auto
termination
  by (relation "measure length") (auto simp: length_dropWhile_le less_Suc_eq_le)

fun re_split :: "string \<Rightarrow> string \<Rightarrow> string list" where
  \<comment> \<open>\<open>re_split [] s\<close> is \<^verbatim>\<open>re.split(r'[:\n]', s)\<close>; the first argument is the piece
      read so far\<close>
  "re_split piece [] = [piece]"
| "re_split piece (c # s) =
     (if c = CHR '':'' \<or> c = CHR 0x0A then piece # re_split [] s
      else re_split (piece @ [c]) s)"

definition strip_final_answer :: "string \<Rightarrow> string" where
  \<comment> \<open>\<^verbatim>\<open>re.sub(r'^final answer:\s*', '', s, flags=re.IGNORECASE)\<close>: the pattern is
      anchored at the start, so it matches at most once\<close>
  "strip_final_answer s =
     (if lower (take 13 s) = ''final answer:'' then dropWhile isspace (drop 13 s) else s)"

function findall_numbers :: "string \<Rightarrow> string list" where
  \<comment> \<open>\<^verbatim>\<open>re.findall(r'[\d,]+\.?\d*%?', s)\<close>: every part of the pattern after the first
      is optional, so the greedy match never backtracks\<close>
  "findall_numbers [] = []"
| "findall_numbers (c # s) =
     (if isdigit c \<or> c = CHR '','' then
        let run = takeWhile (\<lambda>d. isdigit d \<or> d = CHR '','') (c # s);
            r1 = dropWhile (\<lambda>d. isdigit d \<or> d = CHR '','') s;
            dot = (if startswith r1 ''.'' then ''.'' else []);
            r2 = (if startswith r1 ''.'' then tl r1 else r1);
            frac = takeWhile isdigit r2;
            r3 = dropWhile isdigit r2;
            pct = (if startswith r3 ''%'' then ''%'' else []);
            r4 = (if startswith r3 ''%'' then tl r3 else r3)
        in (run @ dot @ frac @ pct) # findall_numbers r4
      else findall_numbers s)"
  by pat_completeness auto
termination
proof (relation "measure length", goal_cases)
  case 1
  show ?case by simp
next
  case (2 c s run r1 dot r2 frac r3 pct r4)
  have a: "length r1 \<le> length s"
    using 2 by (simp add: length_dropWhile_le)
  have b: "length r2 \<le> length r1"
    using 2 by (simp split: if_splits)
  have c: "length r3 \<le> length r2"
    using 2 by (simp add: length_dropWhile_le)
  have d: "length r4 \<le> length r3"
    using 2 by (simp split: if_splits)
  from a b c d show ?case by simp
next
  case (3 c s)
  show ?case by simp
qed

function findall_words :: "string \<Rightarrow> string list" where
  \<comment> \<open>\<^verbatim>\<open>re.findall(r'\b\w+\b', s)\<close>: the maximal runs of word characters\<close>
  "findall_words [] = []"
| "findall_words (c # s) =
     (if isword c then takeWhile isword (c # s) # findall_words (dropWhile isword s)
      else findall_words s)"
  by pat_completeness auto
termination
  by (relation "measure length") (auto simp: length_dropWhile_le less_Suc_eq_le)

fun digits_of :: "nat \<Rightarrow> nat \<Rightarrow> string" where
  \<comment> \<open>the decimal digits of a number; the first argument bounds their count\<close>
  "digits_of 0 n = []"
| "digits_of (Suc k) n =
     (if n < 10 then [char_of (48 + n)] else digits_of k (n div 10) @ [char_of (48 + n mod 10)])"

definition str_nat :: "nat \<Rightarrow> string" where
  \<comment> \<open>\<^verbatim>\<open>str(n)\<close> of a non-negative integer\<close>
  "str_nat n = digits_of (Suc n) n"

subsection \<open>Floating-point numbers\<close>

definition rhe :: "rat \<Rightarrow> int" where
  \<comment> \<open>rounding to the nearest integer, a tie to the even one\<close>
  "rhe x = (let f = \<lfloor>x\<rfloor>; d = x - of_int f in
     if d < 1 / 2 then f else if 1 / 2 < d then f + 1 else if even f then f else f + 1)"

definition ilog2 :: "rat \<Rightarrow> int" where
  \<comment> \<open>for \<open>x > 0\<close>, the exponent \<open>e\<close> with \<open>2\<^sup>e \<le> x < 2\<^sup>e\<^sup>+\<^sup>1\<close>\<close>
  "ilog2 x = (let (p, q) = quotient_of x; d = bitlen p - bitlen q in
     if 2 powi d \<le> x then d else d - 1)"

definition ulp :: "rat \<Rightarrow> rat" where
  \<comment> \<open>the spacing of the doubles around \<open>x\<close>: 53 significant bits, and the fixed
      spacing of the subnormal numbers below \<open>2\<^sup>-\<^sup>1\<^sup>0\<^sup>2\<^sup>2\<close>\<close>
  "ulp x = 2 powi (max (ilog2 \<bar>x\<bar>) (- 1022) - 52)"

definition fl :: "rat \<Rightarrow> rat" where
  \<comment> \<open>the double nearest to \<open>x\<close>, ties to even\<close>
  "fl x = (if x = 0 then 0 else of_int (rhe (x / ulp x)) * ulp x)"

definition fdiv :: "rat \<Rightarrow> rat \<Rightarrow> rat" where
  \<comment> \<open>\<^verbatim>\<open>a / b\<close>, for \<open>b \<noteq> 0\<close>; the quotient of two integers is rounded once\<close>
  "fdiv a b = fl (a / b)"

definition fmul :: "rat \<Rightarrow> rat \<Rightarrow> rat" where
  "fmul a b = fl (a * b)"

definition fadd :: "rat \<Rightarrow> rat \<Rightarrow> rat" where
  "fadd a b = fl (a + b)"

definition fsub :: "rat \<Rightarrow> rat \<Rightarrow> rat" where
  "fsub a b = fl (a - b)"

definition round1 :: "rat \<Rightarrow> rat" where
  \<comment> \<open>\<^verbatim>\<open>round(x, 1)\<close>: the decimal with one fractional digit nearest to the value of
      \<open>x\<close>, a tie to the even digit, read back as a double\<close>
  "round1 x = fl (of_int (rhe (x * 10)) / 10)"

definition fsum :: "rat list \<Rightarrow> rat" where
  \<comment> \<open>\<^verbatim>\<open>sum(xs)\<close> as the left-to-right floating-point sum starting from 0, which is
      the sum of CPython up to 3.11; later versions add a compensation term\<close>
  "fsum xs = foldl fadd 0 xs"

subsection \<open>\<^verbatim>\<open>check_criterion\<close>\<close>

definition stop_words :: "string list" where
  "stop_words = [''the'', ''and'', ''for'', ''that'', ''this'', ''with'', ''from'', ''were'',
     ''have'', ''has'', ''was'']"

definition key_words :: "string \<Rightarrow> string list" where
  \<comment> \<open>the list \<^verbatim>\<open>words\<close> of a phrase\<close>
  "key_words phrase =
     filter (\<lambda>w. length w > 3 \<and> w \<notin> set stop_words) (split (lower phrase))"

definition phrase_covered :: "string \<Rightarrow> string \<Rightarrow> bool" where
  \<comment> \<open>the body of the loop over \<^verbatim>\<open>key_phrases\<close>: whether the phrase adds one to
      \<^verbatim>\<open>matches\<close>. \<^verbatim>\<open>len(words) * 0.5\<close> converts the length to a double first; the
      comparison of an integer with a double is exact.\<close>
  "phrase_covered answer_lower phrase =
     (let words = key_words phrase in
      words \<noteq> [] \<and>
      (let found_words = length (filter (\<lambda>w. contains answer_lower w) words)
       in fmul (fl (of_nat (length words))) (1 / 2) \<le> of_nat found_words))"

definition long_words :: "string \<Rightarrow> string list" where
  \<comment> \<open>\<^verbatim>\<open>set(w.lower() for w in re.findall(r'\b\w+\b', text) if len(w) > 3)\<close>, as a
      list without duplicates\<close>
  "long_words text = remdups (map lower (filter (\<lambda>w. length w > 3) (findall_words text)))"

definition word_overlap :: "string \<Rightarrow> string \<Rightarrow> rat" where
  \<comment> \<open>\<^verbatim>\<open>len(criterion_words & answer_words) / len(criterion_words)\<close>, for a non-empty
      set of criterion words\<close>
  "word_overlap criterion_text answer =
     (let criterion_words = long_words criterion_text;
          answer_words = long_words answer
      in fdiv (of_nat (length (filter (\<lambda>w. w \<in> set answer_words) criterion_words)))
           (of_nat (length criterion_words)))"

definition format_percent :: "rat \<Rightarrow> string" where
  \<comment> \<open>the format \<^verbatim>\<open>{x:.0%}\<close> of a non-negative double: the product with 100, rounded
      to an integer\<close>
  "format_percent x = str_nat (nat (rhe (fmul x 100))) @ ''%''"

definition check_criterion :: "string \<Rightarrow> string \<Rightarrow> string \<Rightarrow> bool \<times> string" where
  \<comment> \<open>The third parameter is the reference answer; the source never reads it. The
      source also binds \<^verbatim>\<open>criterion_lower\<close> and never reads it.\<close>
  "check_criterion criterion_text answer ground_truth =
     (if answer = [] \<or> strip answer = [] then (False, ''No answer provided'')
      else
        let answer_lower = lower answer;
            answer_clean = strip_final_answer answer_lower;
            numbers = findall_numbers criterion_text
        in
        if numbers \<noteq> [] \<and>
           list_all (\<lambda>num. contains (remove_commas answer_clean) (remove_commas num)) numbers
        then (True, ''Found required numbers: '' @ join '', '' numbers)
        else
          let key_phrases =
                filter (\<lambda>p. p \<noteq> []) (map strip (re_split [] criterion_text));
              total = length key_phrases;
              matches = length (filter (phrase_covered answer_lower) key_phrases)
          in
          if total > 0 \<and> fl (3 / 5) \<le> fdiv (of_nat matches) (of_nat total)
          then (True, ''Found '' @ str_nat matches @ ''/'' @ str_nat total @
                  '' key concepts from criterion'')
          else if length criterion_text < 100 \<and> long_words criterion_text \<noteq> [] \<and>
                  fl (3 / 5) \<le> word_overlap criterion_text answer
          then (True, ''Strong word overlap ('' @
                  format_percent (word_overlap criterion_text answer) @ '') with criterion'')
          else (False, ''Criterion not clearly met in answer''))"

subsection \<open>Records of the grading run\<close>

record criterion =
  operator :: string
  criteria :: string

record source =
  url :: "string option"
  name :: "string option"

record ground_truth_data =
  gt_question :: string
  gt_answer :: string
  gt_question_type :: string
  gt_expert_time :: int
  gt_rubric :: "criterion list"

record answer_data =
  ad_question :: "string option"
  ad_answer :: "string option"
  ad_sources :: "source list option"

record rubric_result =
  rr_type :: string
  rr_criteria :: string
  rr_met :: bool
  rr_evidence :: string

record grading_result =
  question_num :: int
  question_type :: string
  difficulty :: string
  expert_time_mins :: int
  status :: string
  correctness_score :: rat
  has_contradictions :: bool
  sources_quality :: string
  rubric_results :: "rubric_result list"
  final_score :: rat
  comments :: string

subsection \<open>\<^verbatim>\<open>categorize_difficulty\<close>\<close>

definition categorize_difficulty :: "string \<Rightarrow> int \<Rightarrow> string" where
  "categorize_difficulty qtype expert_time =
     (if expert_time \<le> 5 then ''Easy''
      else if expert_time \<le> 15 then ''Medium''
      else if expert_time \<le> 30 then ''Hard''
      else ''Very Hard'')"

subsection \<open>\<^verbatim>\<open>grade_answer\<close>\<close>

definition answer_status :: "string \<Rightarrow> string" where
  \<comment> \<open>the block "Determine status"\<close>
  "answer_status answer_text =
     (if answer_text = [] \<or> strip answer_text = [] then ''Skipped''
      else if contains answer_text ''FINAL ANSWER:'' then ''Answered''
      else ''Attempted'')"

fun correctness_loop ::
  "criterion list \<Rightarrow> string \<Rightarrow> string \<Rightarrow> rubric_result list \<times> nat \<Rightarrow> rubric_result list \<times> nat"
where
  \<comment> \<open>the loop over \<^verbatim>\<open>correctness_criteria\<close>, on the state
      \<^verbatim>\<open>(rubric_results, met_count)\<close>\<close>
  "correctness_loop [] answer_text reference st = st"
| "correctness_loop (c # cs) answer_text reference (results, met_count) =
     (case check_criterion (criteria c) answer_text reference of
        (is_met, evidence) \<Rightarrow>
          correctness_loop cs answer_text reference
            (results @
               [\<lparr>rr_type = ''correctness'', rr_criteria = criteria c, rr_met = is_met,
                 rr_evidence = evidence\<rparr>],
             if is_met then met_count + 1 else met_count))"

fun contradiction_loop ::
  "criterion list \<Rightarrow> string \<Rightarrow> string \<Rightarrow> string \<Rightarrow> rubric_result list \<times> bool \<Rightarrow>
     rubric_result list \<times> bool"
where
  \<comment> \<open>the loop over \<^verbatim>\<open>contradiction_criteria\<close>, on the state
      \<^verbatim>\<open>(rubric_results, has_contradictions)\<close>\<close>
  "contradiction_loop [] answer_text reference stat st = st"
| "contradiction_loop (c # cs) answer_text reference stat (results, has_contra) =
     (case check_criterion (criteria c) answer_text reference of
        (is_met, evidence) \<Rightarrow>
          contradiction_loop cs answer_text reference stat
            (results @
               [\<lparr>rr_type = ''contradiction'', rr_criteria = criteria c, rr_met = is_met,
                 rr_evidence = evidence\<rparr>],
             if \<not> is_met \<and> stat = ''Answered'' then True else has_contra))"

definition base_score :: "string \<Rightarrow> nat \<Rightarrow> nat \<Rightarrow> rat" where
  \<comment> \<open>the block "Calculate correctness score"; the last argument is
      \<^verbatim>\<open>len(correctness_criteria)\<close>\<close>
  "base_score stat met_count n =
     (if n > 0 then fmul (fdiv (of_nat met_count) (of_nat n)) 100
      else if stat = ''Skipped'' then 0 else 50)"

definition penalize :: "bool \<Rightarrow> rat \<Rightarrow> rat" where
  \<comment> \<open>the block "Penalize for contradictions"\<close>
  "penalize has_contra score =
     (if has_contra \<and> score < 30 then max 0 (fsub score 20) else score)"

definition source_url :: "source \<Rightarrow> string" where
  \<comment> \<open>\<^verbatim>\<open>s.get('url', '').lower()\<close>\<close>
  "source_url s = lower (case url s of None \<Rightarrow> [] | Some u \<Rightarrow> u)"

definition grade_sources :: "source list \<Rightarrow> string" where
  \<comment> \<open>the block "Grade sources quality"\<close>
  "grade_sources sources =
     (if sources = [] \<or> length sources = 0 then ''Poor''
      else if length sources \<ge> 2 \<and>
              list_ex (\<lambda>s. contains (source_url s) ''sec.gov'' \<or>
                            contains (source_url s) ''investor'' \<or>
                            contains (source_url s) ''ir.'') sources
      then ''Good''
      else if length sources \<ge> 1 then ''Acceptable''
      else ''Poor'')"

definition adjust_score ::
  "string \<Rightarrow> rat \<Rightarrow> bool \<Rightarrow> nat \<Rightarrow> nat \<Rightarrow> string \<Rightarrow> rat \<times> string" where
  \<comment> \<open>the block "Adjust score based on status": \<^verbatim>\<open>(final_score, comments)\<close>\<close>
  "adjust_score stat score has_contra met_count n quality =
     (if stat = ''Skipped'' then (0, ''Question was skipped - no answer provided'')
      else if stat = ''Attempted'' then
        (fmul score (1 / 2),
         ''Answer was attempted but may not be complete. Met '' @ str_nat met_count @ ''/'' @
           str_nat n @ '' rubric criteria.'')
      else
        (score,
         (if has_contra then ''Answer provided but has contradictions. Met ''
          else ''Answer provided. Met '') @
           str_nat met_count @ ''/'' @ str_nat n @ '' rubric criteria. Sources: '' @ quality @
           ''.''))"

record local_vars =
  v_status :: string
  v_met_count :: nat
  v_criteria_count :: nat
  v_base_score :: rat
  v_has_contradictions :: bool
  v_correctness_score :: rat
  v_sources_quality :: string
  v_rubric_results :: "rubric_result list"
  v_final_score :: rat
  v_comments :: string

definition grade_locals :: "answer_data \<Rightarrow> ground_truth_data \<Rightarrow> local_vars" where
  \<comment> \<open>The body of \<^verbatim>\<open>grade_answer\<close> up to its \<^verbatim>\<open>return\<close>: the values of the local
      variables there. \<open>v_criteria_count\<close> is \<^verbatim>\<open>len(correctness_criteria)\<close>; \<open>v_base_score\<close>
      is \<^verbatim>\<open>correctness_score\<close> before the penalty block and \<open>v_correctness_score\<close> is
      the same variable after it.\<close>
  "grade_locals answer_data ground_truth_data =
     (let answer_text = (case ad_answer answer_data of None \<Rightarrow> [] | Some t \<Rightarrow> t);
          sources = (case ad_sources answer_data of None \<Rightarrow> [] | Some ss \<Rightarrow> ss);
          rubric = gt_rubric ground_truth_data;
          stat = answer_status answer_text;
          correctness_criteria = filter (\<lambda>r. operator r = ''correctness'') rubric;
          contradiction_criteria = filter (\<lambda>r. operator r = ''contradiction'') rubric;
          (results1, met_count) =
             correctness_loop correctness_criteria answer_text (gt_answer ground_truth_data)
               ([], 0);
          score1 = base_score stat met_count (length correctness_criteria);
          (results2, has_contra) =
             contradiction_loop contradiction_criteria answer_text
               (gt_answer ground_truth_data) stat (results1, False);
          score2 = penalize has_contra score1;
          quality = grade_sources sources;
          (final, comment) =
             adjust_score stat score2 has_contra met_count (length correctness_criteria)
               quality
      in \<lparr>v_status = stat,
          v_met_count = met_count,
          v_criteria_count = length correctness_criteria,
          v_base_score = score1,
          v_has_contradictions = has_contra,
          v_correctness_score = score2,
          v_sources_quality = quality,
          v_rubric_results = results2,
          v_final_score = final,
          v_comments = comment\<rparr>)"

definition grade_answer :: "int \<Rightarrow> answer_data \<Rightarrow> ground_truth_data \<Rightarrow> grading_result" where
  \<comment> \<open>the dictionary that \<^verbatim>\<open>grade_answer\<close> returns; the two scores are rounded to one
      decimal there\<close>
  "grade_answer q answer_data ground_truth_data =
     (let v = grade_locals answer_data ground_truth_data
      in \<lparr>question_num = q,
          question_type = gt_question_type ground_truth_data,
          difficulty =
            categorize_difficulty (gt_question_type ground_truth_data)
              (gt_expert_time ground_truth_data),
          expert_time_mins = gt_expert_time ground_truth_data,
          status = v_status v,
          correctness_score = round1 (v_correctness_score v),
          has_contradictions = v_has_contradictions v,
          sources_quality = v_sources_quality v,
          rubric_results = v_rubric_results v,
          final_score = round1 (v_final_score v),
          comments = v_comments v\<rparr>)"

subsection \<open>\<^verbatim>\<open>load_ground_truth\<close> and \<^verbatim>\<open>load_answers\<close>\<close>

text \<open>
  The input of \<open>load_ground_truth\<close> is the list of rows that \<^verbatim>\<open>csv.DictReader\<close> yields,
  each with its five cells. The two parsers the function calls on a cell, \<^verbatim>\<open>eval\<close> for
  the rubric and \<^verbatim>\<open>int\<close> for the expert time, are parameters; \<open>None\<close> is an exception
  raised by the parser. The input of \<open>load_answers\<close> is the list that \<^verbatim>\<open>json.load\<close>
  returns; a field of an element is \<open>None\<close> when the key is absent.
\<close>

datatype py_error = EvalError | ValueError | KeyError string

record csv_row =
  Question :: string
  Answer :: string
  Rubric :: string
  Question_Type :: string
  Expert_time :: string

record answer_item =
  item_question_number :: "int option"
  item_question :: "string option"
  item_answer :: "string option"
  item_sources :: "source list option"

type_synonym ground_truth = "int \<rightharpoonup> ground_truth_data"

type_synonym answers = "int \<rightharpoonup> answer_data"

definition row_entry ::
  "(string \<Rightarrow> criterion list option) \<Rightarrow> (string \<Rightarrow> int option) \<Rightarrow> csv_row \<Rightarrow>
     py_error + ground_truth_data"
where
  \<comment> \<open>the record stored for a row: the rubric is evaluated first, then the record is
      built, which parses the expert time\<close>
  "row_entry ev to_int row =
     (case ev (Rubric row) of
        None \<Rightarrow> Inl EvalError
      | Some rubric \<Rightarrow>
          (case to_int (Expert_time row) of
             None \<Rightarrow> Inl ValueError
           | Some t \<Rightarrow>
               Inr \<lparr>gt_question = Question row, gt_answer = Answer row,
                    gt_question_type = Question_Type row, gt_expert_time = t,
                    gt_rubric = rubric\<rparr>))"

fun load_rows ::
  "(string \<Rightarrow> criterion list option) \<Rightarrow> (string \<Rightarrow> int option) \<Rightarrow> csv_row list \<Rightarrow> int \<Rightarrow>
     ground_truth \<Rightarrow> py_error + ground_truth"
where
  \<comment> \<open>the loop over the rows, on the state \<^verbatim>\<open>(question_num, ground_truth)\<close>\<close>
  "load_rows ev to_int [] num gt = Inr gt"
| "load_rows ev to_int (row # rows) num gt =
     (if Question row \<noteq> [] then
        (case row_entry ev to_int row of
           Inl e \<Rightarrow> Inl e
         | Inr entry \<Rightarrow> load_rows ev to_int rows (num + 1) (gt(num \<mapsto> entry)))
      else load_rows ev to_int rows num gt)"

definition load_ground_truth ::
  "(string \<Rightarrow> criterion list option) \<Rightarrow> (string \<Rightarrow> int option) \<Rightarrow> csv_row list \<Rightarrow>
     py_error + ground_truth"
where
  "load_ground_truth ev to_int rows = load_rows ev to_int rows 1 Map.empty"

definition item_entry :: "answer_item \<Rightarrow> py_error + answer_data" where
  \<comment> \<open>the record stored for an element of \<^verbatim>\<open>answers_list\<close>: \<^verbatim>\<open>item['question']\<close> raises
      when the key is absent, the two \<^verbatim>\<open>get\<close> calls have defaults\<close>
  "item_entry item =
     (case item_question item of
        None \<Rightarrow> Inl (KeyError ''question'')
      | Some qtext \<Rightarrow>
          Inr \<lparr>ad_question = Some qtext,
               ad_answer = Some (case item_answer item of None \<Rightarrow> [] | Some a \<Rightarrow> a),
               ad_sources = Some (case item_sources item of None \<Rightarrow> [] | Some ss \<Rightarrow> ss)\<rparr>)"

fun load_items :: "answer_item list \<Rightarrow> answers \<Rightarrow> py_error + answers" where
  \<comment> \<open>the loop over \<^verbatim>\<open>answers_list\<close>; the value is built before the key is read\<close>
  "load_items [] ans = Inr ans"
| "load_items (item # items) ans =
     (case item_entry item of
        Inl e \<Rightarrow> Inl e
      | Inr entry \<Rightarrow>
          (case item_question_number item of
             None \<Rightarrow> Inl (KeyError ''question_number'')
           | Some n \<Rightarrow> load_items items (ans(n \<mapsto> entry))))"

definition load_answers :: "answer_item list \<Rightarrow> py_error + answers" where
  "load_answers items = load_items items Map.empty"

subsection \<open>\<^verbatim>\<open>calculate_summary\<close> and \<^verbatim>\<open>main\<close>\<close>

record summary_report =
  total_questions :: nat
  answered :: nat
  attempted :: nat
  skipped :: nat
  average_score :: rat
  by_difficulty :: "(string \<times> rat) list"
  by_question_type :: "(string \<times> rat) list"

record report =
  questions :: "grading_result list"
  summary :: summary_report

fun group_append :: "(string \<times> rat list) list \<Rightarrow> string \<Rightarrow> rat \<Rightarrow> (string \<times> rat list) list" where
  \<comment> \<open>\<^verbatim>\<open>d[k].append(v)\<close> on a \<^verbatim>\<open>defaultdict(list)\<close>, the keys in insertion order\<close>
  "group_append [] k v = [(k, [v])]"
| "group_append ((k', vs) # d) k v =
     (if k' = k then (k', vs @ [v]) # d else (k', vs) # group_append d k v)"

definition group_scores :: "(grading_result \<Rightarrow> string) \<Rightarrow> grading_result list \<Rightarrow> (string \<times> rat list) list" where
  "group_scores key rs = foldl (\<lambda>d r. group_append d (key r) (final_score r)) [] rs"

definition group_stats :: "(string \<times> rat list) list \<Rightarrow> (string \<times> rat) list" where
  \<comment> \<open>\<^verbatim>\<open>round(sum(scores) / len(scores), 1) if scores else 0\<close> for each group\<close>
  "group_stats d =
     map (\<lambda>(k, scores).
            (k, if scores \<noteq> [] then round1 (fdiv (fsum scores) (of_nat (length scores))) else 0))
       d"

definition calculate_summary :: "grading_result list \<Rightarrow> summary_report" where
  "calculate_summary graded_results =
     (let total = length graded_results;
          avg_score =
            (if total > 0 then fdiv (fsum (map final_score graded_results)) (of_nat total)
             else 0)
      in \<lparr>total_questions = total,
          answered = length (filter (\<lambda>r. status r = ''Answered'') graded_results),
          attempted = length (filter (\<lambda>r. status r = ''Attempted'') graded_results),
          skipped = length (filter (\<lambda>r. status r = ''Skipped'') graded_results),
          average_score = round1 avg_score,
          by_difficulty = group_stats (group_scores difficulty graded_results),
          by_question_type = group_stats (group_scores question_type graded_results)\<rparr>)"

definition no_answer :: answer_data where
  \<comment> \<open>the default \<^verbatim>\<open>{'answer': '', 'sources': []}\<close> of \<^verbatim>\<open>answers.get\<close>\<close>
  "no_answer = \<lparr>ad_question = None, ad_answer = Some [], ad_sources = Some []\<rparr>"

fun grade_loop :: "int list \<Rightarrow> ground_truth \<Rightarrow> answers \<Rightarrow> grading_result list \<Rightarrow> grading_result list" where
  \<comment> \<open>the loop of \<^verbatim>\<open>main\<close> over the question numbers, on the state \<^verbatim>\<open>graded_results\<close>\<close>
  "grade_loop [] gt ans graded = graded"
| "grade_loop (q # qs) gt ans graded =
     (case gt q of
        None \<Rightarrow> grade_loop qs gt ans graded
      | Some g \<Rightarrow>
          grade_loop qs gt ans
            (graded @ [grade_answer q (case ans q of None \<Rightarrow> no_answer | Some a \<Rightarrow> a) g]))"

definition make_report :: "ground_truth \<Rightarrow> answers \<Rightarrow> report" where
  \<comment> \<open>\<^verbatim>\<open>main\<close> after the two loads: the loop over \<^verbatim>\<open>range(1, 51)\<close> and the summary\<close>
  "make_report gt ans =
     (let graded_results = grade_loop [1..50] gt ans []
      in \<lparr>questions = graded_results, summary = calculate_summary graded_results\<rparr>)"

definition main ::
  "(string \<Rightarrow> criterion list option) \<Rightarrow> (string \<Rightarrow> int option) \<Rightarrow> csv_row list \<Rightarrow>
     answer_item list \<Rightarrow> py_error + report"
where
  \<comment> \<open>the report that \<^verbatim>\<open>main\<close> writes, from the rows of the ground-truth file and the
      elements of the answer file\<close>
  "main ev to_int rows items =
     (case load_ground_truth ev to_int rows of
        Inl e \<Rightarrow> Inl e
      | Inr gt \<Rightarrow>
          (case load_answers items of
             Inl e \<Rightarrow> Inl e
           | Inr ans \<Rightarrow> Inr (make_report gt ans)))"

subsection \<open>Example inputs\<close>

definition example_truth :: ground_truth_data where
  \<comment> \<open>a question with five correctness criteria and one contradiction criterion\<close>
  "example_truth =
     \<lparr>gt_question = ''How much did revenue grow?'',
      gt_answer = ''Revenue grew 44.7%'',
      gt_question_type = ''Numerical'',
      gt_expert_time = 15,
      gt_rubric =
        [\<lparr>operator = ''correctness'', criteria = ''Revenue grew 44.7%''\<rparr>,
         \<lparr>operator = ''correctness'', criteria = ''Operating margin was 13%''\<rparr>,
         \<lparr>operator = ''correctness'', criteria = ''Net income was 250 million''\<rparr>,
         \<lparr>operator = ''correctness'', criteria = ''Guidance was raised to 900 million''\<rparr>,
         \<lparr>operator = ''correctness'', criteria = ''Headcount rose by 1,200''\<rparr>,
         \<lparr>operator = ''contradiction'', criteria = ''Profit declined by 3%''\<rparr>]\<rparr>"

definition example_answer :: answer_data where
  "example_answer =
     \<lparr>ad_question = Some ''How much did revenue grow?'',
      ad_answer = Some ''FINAL ANSWER: revenue grew 44.7% over the year'',
      ad_sources = Some [\<lparr>url = Some ''https://www.sec.gov/filing'', name = Some ''10-K''\<rparr>]\<rparr>"




definition example_eval :: "string \<Rightarrow> criterion list option" where
  \<comment> \<open>the evaluator on the rubric cells of the examples; it raises on every other cell\<close>
  "example_eval cell =
     (if cell = ''[correctness: Revenue grew 44.7%]''
      then Some [\<lparr>operator = ''correctness'', criteria = ''Revenue grew 44.7%''\<rparr>]
      else if cell = ''[]'' then Some []
      else None)"

definition example_int :: "string \<Rightarrow> int option" where
  \<comment> \<open>the integer parser on the expert-time cells of the examples\<close>
  "example_int cell =
     (if cell = ''5'' then Some 5 else if cell = ''15'' then Some 15 else None)"

definition example_row :: csv_row where
  "example_row =
     \<lparr>Question = ''How much did revenue grow?'', Answer = ''Revenue grew 44.7%'',
      Rubric = ''[correctness: Revenue grew 44.7%]'', Question_Type = ''Numerical'',
      Expert_time = ''5''\<rparr>"

definition example_empty_row :: csv_row where
  "example_empty_row =
     \<lparr>Question = [], Answer = [], Rubric = [], Question_Type = [], Expert_time = []\<rparr>"

definition example_items :: "answer_item list" where
  \<comment> \<open>two elements for question 5, the later one without sources\<close>
  "example_items =
     [\<lparr>item_question_number = Some 5, item_question = Some ''Q5'',
        item_answer = Some ''first answer'',
        item_sources = Some [\<lparr>url = Some ''https://example.com'', name = Some ''Example''\<rparr>]\<rparr>,
      \<lparr>item_question_number = Some 2, item_question = Some ''Q2'', item_answer = None,
        item_sources = None\<rparr>,
      \<lparr>item_question_number = Some 5, item_question = Some ''Q5'',
        item_answer = Some ''FINAL ANSWER: second answer'', item_sources = None\<rparr>]"

section \<open>Properties\<close>

subsection \<open>Answers without text\<close>

lemma strip_whitespace_only: "list_all isspace s \<Longrightarrow> strip s = []"
  by (auto simp: strip_def list_all_iff dest: set_dropWhileD)

text \<open>
  Claim C6. For every criterion text, \<open>check_criterion\<close> on an answer text that is empty
  or consists of whitespace only returns \<open>met = False\<close> with the evidence
  \<^verbatim>\<open>No answer provided\<close>. No heuristic takes part: the result is this constant, whatever
  the criterion and the reference answer are.
\<close>

theorem check_criterion_no_answer:
  "list_all isspace answer \<Longrightarrow>
     check_criterion criterion_text answer reference = (False, ''No answer provided'')"
  by (simp add: check_criterion_def strip_whitespace_only)

theorem check_criterion_no_answer_witness:
  "list_all isspace [CHR '' '', CHR 0x09, CHR 0x0A] \<and>
   check_criterion ''Revenue grew 44.7%'' [CHR '' '', CHR 0x09, CHR 0x0A] ''44.7%'' =
     (False, ''No answer provided'')"
  using check_criterion_no_answer
    [of "[CHR '' '', CHR 0x09, CHR 0x0A]" "''Revenue grew 44.7%''" "''44.7%''"]
  by (simp add: isspace_def)

subsection \<open>The reference answer is never read\<close>

lemma check_criterion_reference:
  "check_criterion criterion_text answer g = check_criterion criterion_text answer []"
  by (simp add: check_criterion_def)

lemma correctness_loop_reference:
  "correctness_loop cs a g st = correctness_loop cs a [] st"
proof (induction cs arbitrary: st)
  case Nil
  show ?case by simp
next
  case (Cons c cs)
  obtain rs m where st: "st = (rs, m)" by (cases st)
  show ?case
    unfolding st
    by (simp add: check_criterion_reference [of _ _ g] Cons.IH [of "(x, y)" for x y]
        split: prod.splits)
qed

lemma contradiction_loop_reference:
  "contradiction_loop cs a g stat st = contradiction_loop cs a [] stat st"
proof (induction cs arbitrary: st)
  case Nil
  show ?case by simp
next
  case (Cons c cs)
  obtain rs h where st: "st = (rs, h)" by (cases st)
  show ?case
    unfolding st
    by (simp add: check_criterion_reference [of _ _ g] Cons.IH [of "(x, y)" for x y]
        split: prod.splits)
qed

text \<open>
  Claim C10. The result of \<open>check_criterion\<close>, the boolean and the evidence string,
  depends on the criterion text and the answer text only: two reference answers give the
  same result. Hence \<open>grade_answer\<close>, which passes the reference answer of the ground
  truth to every correctness and contradiction criterion, returns the same result for
  two ground-truth records that differ in the reference answer only.
\<close>

theorem check_criterion_ignores_reference:
  "check_criterion criterion_text answer g1 = check_criterion criterion_text answer g2 \<and>
   grade_answer q answer_data (gtd\<lparr>gt_answer := g1\<rparr>) =
     grade_answer q answer_data (gtd\<lparr>gt_answer := g2\<rparr>)"
proof
  show "check_criterion criterion_text answer g1 = check_criterion criterion_text answer g2"
    by (simp add: check_criterion_def)
  show "grade_answer q answer_data (gtd\<lparr>gt_answer := g1\<rparr>) =
     grade_answer q answer_data (gtd\<lparr>gt_answer := g2\<rparr>)"
    unfolding grade_answer_def grade_locals_def
    by (simp add: correctness_loop_reference [of _ _ g1] correctness_loop_reference [of _ _ g2]
        contradiction_loop_reference [of _ _ g1] contradiction_loop_reference [of _ _ g2])
qed

theorem check_criterion_ignores_reference_witness:
  "check_criterion ''Revenue grew 44.7%'' ''about 44%'' ''Revenue grew 44.7%'' =
     check_criterion ''Revenue grew 44.7%'' ''about 44%'' ''Revenue fell'' \<and>
   grade_answer 1 example_answer (example_truth\<lparr>gt_answer := ''Revenue grew 44.7%''\<rparr>) =
     grade_answer 1 example_answer (example_truth\<lparr>gt_answer := ''Revenue fell''\<rparr>)"
  by (rule check_criterion_ignores_reference)

subsection \<open>Substrings and blank texts\<close>

lemma startswith_iff: "startswith s p \<longleftrightarrow> (\<exists>r. s = p @ r)"
  by (induction s p rule: startswith.induct) auto

lemma contains_iff: "contains s x \<longleftrightarrow> (\<exists>p r. s = p @ x @ r)"
proof (induction s)
  case Nil
  show ?case by simp
next
  case (Cons c s)
  show ?case
  proof
    assume "contains (c # s) x"
    then consider "startswith (c # s) x" | "contains s x" by auto
    then show "\<exists>p r. c # s = p @ x @ r"
    proof cases
      case 1
      then obtain r where "c # s = x @ r" by (auto simp: startswith_iff)
      then have "c # s = [] @ x @ r" by simp
      then show ?thesis by blast
    next
      case 2
      then obtain p r where "s = p @ x @ r" using Cons.IH by auto
      then have "c # s = (c # p) @ x @ r" by simp
      then show ?thesis by blast
    qed
  next
    assume "\<exists>p r. c # s = p @ x @ r"
    then obtain p r where e: "c # s = p @ x @ r" by auto
    show "contains (c # s) x"
    proof (cases p)
      case Nil
      with e have "startswith (c # s) x" by (auto simp: startswith_iff)
      then show ?thesis by simp
    next
      case (Cons d p')
      with e have "s = p' @ x @ r" by simp
      then have "contains s x" using Cons.IH by auto
      then show ?thesis by simp
    qed
  qed
qed

lemma strip_empty_iff: "strip s = [] \<longleftrightarrow> list_all isspace s"
proof
  assume "list_all isspace s"
  then show "strip s = []" by (rule strip_whitespace_only)
next
  assume a: "strip s = []"
  show "list_all isspace s"
  proof (rule ccontr)
    assume "\<not> list_all isspace s"
    then have n: "dropWhile isspace s \<noteq> []"
      by (simp add: list_all_iff)
    then have "\<not> isspace (hd (dropWhile isspace s))"
      by (rule hd_dropWhile)
    moreover have "hd (dropWhile isspace s) \<in> set (rev (dropWhile isspace s))"
      using n by simp
    ultimately have "dropWhile isspace (rev (dropWhile isspace s)) \<noteq> []"
      unfolding dropWhile_eq_Nil_conv by blast
    then show False using a by (simp add: strip_def del: dropWhile_eq_Nil_conv)
  qed
qed

subsection \<open>Status of an answer\<close>

lemma status_of_grade_answer:
  "status (grade_answer q ad g) =
     answer_status (case ad_answer ad of None \<Rightarrow> [] | Some t \<Rightarrow> t)"
  by (simp add: grade_answer_def grade_locals_def Let_def split: prod.splits)

text \<open>
  Claim C2, as the code has it. The status that \<open>grade_answer\<close> reports for an answer
  text is \<^verbatim>\<open>Skipped\<close> when the text is empty or whitespace only, \<^verbatim>\<open>Answered\<close> when it
  contains the marker \<^verbatim>\<open>FINAL ANSWER:\<close> in exactly this spelling (the test is Python's
  \<^verbatim>\<open>in\<close>, which compares characters, so upper case matters), and \<^verbatim>\<open>Attempted\<close> for
  every other text.
\<close>

theorem answer_status_cases:
  "status (grade_answer q (ad\<lparr>ad_answer := Some t\<rparr>) g) = answer_status t \<and>
   answer_status t =
     (if list_all isspace t then ''Skipped''
      else if \<exists>p r. t = p @ ''FINAL ANSWER:'' @ r then ''Answered''
      else ''Attempted'')"
  using contains_iff [of t "''FINAL ANSWER:''"]
  by (auto simp add: status_of_grade_answer answer_status_def strip_empty_iff
      simp del: contains.simps)

theorem answer_status_cases_witness:
  "status (grade_answer 1 (example_answer\<lparr>ad_answer := Some ''FINAL ANSWER: $125 billion''\<rparr>)
     example_truth) = ''Answered'' \<and>
   status (grade_answer 1
     (example_answer\<lparr>ad_answer := Some ''I think it is around $125 billion''\<rparr>)
     example_truth) = ''Attempted'' \<and>
   status (grade_answer 1 (example_answer\<lparr>ad_answer := Some []\<rparr>) example_truth) =
     ''Skipped''"
proof -
  let ?m = "''FINAL ANSWER:''"
  let ?t1 = "''FINAL ANSWER: $125 billion''"
  let ?t2 = "''I think it is around $125 billion''"
  have "contains ?t1 ?m" by code_simp
  then have e1: "(\<exists>p r. ?t1 = p @ ?m @ r) = True"
    by (simp only: contains_iff)
  have "\<not> contains ?t2 ?m" by code_simp
  then have e2: "(\<exists>p r. ?t2 = p @ ?m @ r) = False"
    by (simp only: contains_iff)
  have b: "list_all isspace ?t1 = False" "list_all isspace ?t2 = False"
    "list_all isspace [] = True"
    by code_simp+
  have "status (grade_answer 1 (example_answer\<lparr>ad_answer := Some ?t1\<rparr>) example_truth) =
      ''Answered''"
    using answer_status_cases
      [where q = 1 and ad = example_answer and t = ?t1 and g = example_truth]
    by (simp only: e1 b if_True if_False)
  moreover have
    "status (grade_answer 1 (example_answer\<lparr>ad_answer := Some ?t2\<rparr>) example_truth) =
      ''Attempted''"
    using answer_status_cases
      [where q = 1 and ad = example_answer and t = ?t2 and g = example_truth]
    by (simp only: e2 b if_True if_False)
  moreover have
    "status (grade_answer 1 (example_answer\<lparr>ad_answer := Some []\<rparr>) example_truth) =
      ''Skipped''"
    using answer_status_cases
      [where q = 1 and ad = example_answer and t = "[]" and g = example_truth]
    by (simp only: b if_True if_False)
  ultimately show ?thesis by (intro conjI)
qed

text \<open>
  The claim as stated asks for a case-insensitive match of the marker. The text
  \<^verbatim>\<open>final answer: 42\<close> contains the marker when case is ignored (its lower-case form
  contains the lower-case marker), and its status is \<^verbatim>\<open>Attempted\<close>, not \<^verbatim>\<open>Answered\<close>.
\<close>

theorem answer_status_lowercase_marker:
  "contains (lower ''final answer: 42'') (lower ''FINAL ANSWER:'') \<and>
   status (grade_answer 1 (example_answer\<lparr>ad_answer := Some ''final answer: 42''\<rparr>)
     example_truth) = ''Attempted''"
proof
  show "contains (lower ''final answer: 42'') (lower ''FINAL ANSWER:'')"
    by code_simp
  have "answer_status ''final answer: 42'' = ''Attempted''"
    by code_simp
  then show "status (grade_answer 1 (example_answer\<lparr>ad_answer := Some ''final answer: 42''\<rparr>)
     example_truth) = ''Attempted''"
    by (simp add: status_of_grade_answer)
qed

subsection \<open>The numeric-coverage check on an example\<close>

lemma dropWhile_keeps:
  "\<not> P c \<Longrightarrow> \<exists>q'. dropWhile P (q @ c # u) = q' @ c # u"
  by (induction q) auto

lemma lower_append: "lower (a @ b) = lower a @ lower b"
  by (simp add: lower_def)

lemma remove_commas_append: "remove_commas (a @ b) = remove_commas a @ remove_commas b"
  by (simp add: remove_commas_def)

lemma token_facts:
  "lower ''44.7%'' = ''44.7%''"
  "remove_commas ''44.7%'' = ''44.7%''"
  "\<not> isspace CHR ''4''"
  "CHR ''4'' \<notin> set ''final answer:''"
  "lower_char CHR ''4'' = CHR ''4''"
  "findall_numbers ''Revenue grew 44.7%'' = [''44.7%'']"
  by code_simp+

lemma strip_final_answer_keeps:
  "\<exists>q. strip_final_answer (p @ ''44.7%'' @ r) = q @ ''44.7%'' @ r"
proof (cases "lower (take 13 (p @ ''44.7%'' @ r)) = ''final answer:''")
  case False
  then show ?thesis by (auto simp: strip_final_answer_def)
next
  case True
  have long: "13 \<le> length p"
  proof (rule ccontr)
    assume "\<not> 13 \<le> length p"
    then have "CHR ''4'' \<in> set (take 13 (p @ ''44.7%'' @ r))"
      by (simp add: take_Cons')
    then have "lower_char CHR ''4'' \<in> set (lower (take 13 (p @ ''44.7%'' @ r)))"
      unfolding lower_def by (simp only: set_map) (rule imageI)
    then show False
      using True token_facts(4,5) by simp
  qed
  then have "drop 13 (p @ ''44.7%'' @ r) = drop 13 p @ CHR ''4'' # ''4.7%'' @ r"
    by simp
  moreover obtain q where
    "dropWhile isspace (drop 13 p @ CHR ''4'' # ''4.7%'' @ r) = q @ CHR ''4'' # ''4.7%'' @ r"
    using dropWhile_keeps [of isspace "CHR ''4''" "drop 13 p" "''4.7%'' @ r"] token_facts(3)
    by blast
  ultimately show ?thesis
    using True by (auto simp: strip_final_answer_def)
qed

lemma answer_clean_contains:
  "contains (remove_commas (strip_final_answer (lower (p @ ''44.7%'' @ r)))) ''44.7%''"
proof -
  have "lower (p @ ''44.7%'' @ r) = lower p @ ''44.7%'' @ lower r"
    by (simp only: lower_append token_facts(1))
  then obtain q where "strip_final_answer (lower (p @ ''44.7%'' @ r)) = q @ ''44.7%'' @ lower r"
    using strip_final_answer_keeps [of "lower p" "lower r"] by auto
  then have "remove_commas (strip_final_answer (lower (p @ ''44.7%'' @ r))) =
      remove_commas q @ ''44.7%'' @ remove_commas (lower r)"
    by (simp only: remove_commas_append token_facts(2))
  then show ?thesis
    unfolding contains_iff by blast
qed

lemma token_not_blank: "\<not> list_all isspace (p @ ''44.7%'' @ r)"
  using token_facts(3) by simp

text \<open>
  Claim C5. For the criterion text \<^verbatim>\<open>Revenue grew 44.7%\<close>, whose only numeric token is
  \<^verbatim>\<open>44.7%\<close>, \<open>check_criterion\<close> returns \<open>met = True\<close> through the numeric-coverage check
  for every answer text that contains \<^verbatim>\<open>44.7%\<close>. For the answer text \<^verbatim>\<open>44%\<close> it returns
  \<open>met = False\<close>: the token is not in the cleaned answer, no key phrase is covered, and the
  word overlap is 0.
\<close>

theorem numeric_coverage_example:
  "check_criterion ''Revenue grew 44.7%'' (p @ ''44.7%'' @ r) g =
     (True, ''Found required numbers: 44.7%'') \<and>
   check_criterion ''Revenue grew 44.7%'' ''44%'' g =
     (False, ''Criterion not clearly met in answer'') \<and>
   findall_numbers ''Revenue grew 44.7%'' = [''44.7%''] \<and>
   \<not> contains (remove_commas (strip_final_answer (lower ''44%''))) (remove_commas ''44.7%'') \<and>
   \<not> phrase_covered (lower ''44%'') ''Revenue grew 44.7%'' \<and>
   word_overlap ''Revenue grew 44.7%'' ''44%'' = 0"
proof (intro conjI)
  let ?a = "p @ ''44.7%'' @ r"
  have "strip ?a \<noteq> []"
    using token_not_blank [of p r] by (simp add: strip_empty_iff)
  moreover have "?a \<noteq> []" by simp
  ultimately have a: "(?a = [] \<or> strip ?a = []) = False" by blast
  have n: "findall_numbers ''Revenue grew 44.7%'' = [''44.7%'']"
    by (rule token_facts(6))
  have k: "contains (remove_commas (strip_final_answer (lower ?a))) (remove_commas ''44.7%'')
      = True"
    using answer_clean_contains [of p r] by (simp only: token_facts(2))
  have "check_criterion ''Revenue grew 44.7%'' ?a g =
      (True, ''Found required numbers: '' @ join '', '' [''44.7%''])"
    by (simp only: check_criterion_def Let_def a n k if_True if_False list.pred_inject
        list.distinct not_False_eq_True simp_thms)
  also have "\<dots> = (True, ''Found required numbers: 44.7%'')"
    by simp
  finally show "check_criterion ''Revenue grew 44.7%'' ?a g =
     (True, ''Found required numbers: 44.7%'')" .
  show "check_criterion ''Revenue grew 44.7%'' ''44%'' g =
     (False, ''Criterion not clearly met in answer'')"
    by code_simp
  show "findall_numbers ''Revenue grew 44.7%'' = [''44.7%'']"
    by (rule token_facts(6))
  show "\<not> contains (remove_commas (strip_final_answer (lower ''44%'')))
      (remove_commas ''44.7%'')"
    by code_simp
  show "\<not> phrase_covered (lower ''44%'') ''Revenue grew 44.7%''"
    by code_simp
  show "word_overlap ''Revenue grew 44.7%'' ''44%'' = 0"
    by code_simp
qed

theorem numeric_coverage_example_witness:
  "check_criterion ''Revenue grew 44.7%'' ''FINAL ANSWER: revenue grew 44.7% in 2024''
     ''Revenue grew 44.7%'' = (True, ''Found required numbers: 44.7%'') \<and>
   check_criterion ''Revenue grew 44.7%'' ''44%'' ''Revenue grew 44.7%'' =
     (False, ''Criterion not clearly met in answer'')"
  using numeric_coverage_example
    [of "''FINAL ANSWER: revenue grew ''" "'' in 2024''" "''Revenue grew 44.7%''"]
  by simp

subsection \<open>Rounding to a double is monotone\<close>

lemma rhe_of_int: "rhe (of_int n) = n"
  by (simp add: rhe_def)

lemma rhe_bounds: "\<lfloor>x\<rfloor> \<le> rhe x \<and> rhe x \<le> \<lfloor>x\<rfloor> + 1"
  by (simp add: rhe_def Let_def)

lemma rhe_mono: "x \<le> y \<Longrightarrow> rhe x \<le> rhe y"
proof -
  assume le: "x \<le> y"
  have fl: "\<lfloor>x\<rfloor> \<le> \<lfloor>y\<rfloor>" using le by (rule floor_mono)
  show ?thesis
  proof (cases "\<lfloor>x\<rfloor> = \<lfloor>y\<rfloor>")
    case False
    with fl have "\<lfloor>x\<rfloor> + 1 \<le> \<lfloor>y\<rfloor>" by simp
    then show ?thesis using rhe_bounds [of x] rhe_bounds [of y] by linarith
  next
    case True
    then have "x - of_int \<lfloor>x\<rfloor> \<le> y - of_int \<lfloor>y\<rfloor>" using le by simp
    then show ?thesis using True
      unfolding rhe_def Let_def by (auto split: if_splits)
  qed
qed

lemma rhe_le: "x \<le> of_int n \<Longrightarrow> rhe x \<le> n"
  using rhe_mono [of x "of_int n"] by (simp add: rhe_of_int)

lemma rhe_ge: "of_int n \<le> x \<Longrightarrow> n \<le> rhe x"
  using rhe_mono [of "of_int n" x] by (simp add: rhe_of_int)


lemma pow2_pos: "0 < (2::rat) powi k"
  by (simp add: zero_less_power_int)

lemma pow2_mono: "a \<le> b \<Longrightarrow> (2::rat) powi a \<le> 2 powi b"
  by (rule power_int_increasing) simp_all

lemma pow2_add: "(2::rat) powi (a + b) = 2 powi a * 2 powi b"
  by (simp add: power_int_add)

lemma pow2_diff: "(2::rat) powi (a - b) = 2 powi a / 2 powi b"
  by (simp add: power_int_diff)

lemma pow2_bitlen:
  assumes "0 < p"
  shows "(2::rat) powi (bitlen p - 1) \<le> of_int p" and "of_int p < (2::rat) powi bitlen p"
proof -
  have b: "1 \<le> bitlen p" using assms by (simp add: bitlen_alt_def)
  have "2 ^ nat (bitlen p - 1) \<le> p" and "p < 2 ^ nat (bitlen p)"
    using bitlen_bounds [OF assms] by auto
  then have "(of_int (2 ^ nat (bitlen p - 1)) :: rat) \<le> of_int p"
    and "(of_int p :: rat) < of_int (2 ^ nat (bitlen p))"
    by (simp_all only: of_int_le_iff of_int_less_iff)
  then show "(2::rat) powi (bitlen p - 1) \<le> of_int p" and "of_int p < (2::rat) powi bitlen p"
    using b by (simp_all add: power_int_def)
qed

lemma ilog2_bounds:
  assumes "0 < x"
  shows "2 powi (ilog2 x) \<le> x \<and> x < 2 powi (ilog2 x + 1)"
proof -
  obtain p q where pq: "quotient_of x = (p, q)" by (cases "quotient_of x")
  have q: "0 < q" using pq by (rule quotient_of_denom_pos)
  have x: "x = of_int p / of_int q" using pq by (rule quotient_of_div)
  have p: "0 < p" using assms q unfolding x by (simp add: zero_less_divide_iff)
  let ?d = "bitlen p - bitlen q"
  have "of_int p < (2::rat) powi bitlen p" using p by (rule pow2_bitlen)
  moreover have "(2::rat) powi (bitlen q - 1) \<le> of_int q" using q by (rule pow2_bitlen)
  ultimately have "of_int p * 2 powi (bitlen q - 1) < (2::rat) powi bitlen p * of_int q"
    using p q by (intro mult_less_le_imp_less) (simp_all add: pow2_pos less_imp_le)
  then have "x < 2 powi bitlen p / 2 powi (bitlen q - 1)"
    unfolding x using q by (simp add: field_simps pow2_pos)
  also have "\<dots> = 2 powi (?d + 1)"
    by (simp add: pow2_diff pow2_add)
  finally have up: "x < 2 powi (?d + 1)" .
  have "(2::rat) powi (bitlen p - 1) \<le> of_int p" using p by (rule pow2_bitlen)
  moreover have "of_int q < (2::rat) powi bitlen q" using q by (rule pow2_bitlen)
  ultimately have "2 powi (bitlen p - 1) * of_int q \<le> of_int p * (2::rat) powi bitlen q"
    using p q by (intro mult_mono) (simp_all add: less_imp_le)
  then have "2 powi (bitlen p - 1) / 2 powi bitlen q \<le> x"
    unfolding x using q by (simp add: field_simps pow2_pos)
  moreover have "(2::rat) powi (bitlen p - 1) / 2 powi bitlen q = 2 powi (?d - 1)"
    by (simp add: pow2_diff)
  ultimately have lo: "2 powi (?d - 1) \<le> x" by simp
  show ?thesis
  proof (cases "2 powi ?d \<le> x")
    case True
    then have "ilog2 x = ?d" by (simp add: ilog2_def pq)
    then show ?thesis using True up by simp
  next
    case False
    then have "ilog2 x = ?d - 1" by (simp add: ilog2_def pq)
    then show ?thesis using False lo by simp
  qed
qed

lemma ilog2_mono:
  assumes "0 < x" "x \<le> y"
  shows "ilog2 x \<le> ilog2 y"
proof (rule ccontr)
  assume "\<not> ilog2 x \<le> ilog2 y"
  then have "ilog2 y + 1 \<le> ilog2 x" by simp
  then have "(2::rat) powi (ilog2 y + 1) \<le> 2 powi ilog2 x" by (rule pow2_mono)
  also have "\<dots> \<le> x" using ilog2_bounds [of x] assms by simp
  also have "\<dots> \<le> y" by fact
  also have "\<dots> < 2 powi (ilog2 y + 1)" using ilog2_bounds [of y] assms by simp
  finally show False by simp
qed


lemma ulp_pos: "0 < ulp x"
  by (simp add: ulp_def pow2_pos)

lemma fl_nonneg: "0 \<le> x \<Longrightarrow> 0 \<le> fl x"
proof -
  assume "0 \<le> x"
  then have "of_int 0 \<le> x / ulp x" using ulp_pos [of x] by simp
  then have "0 \<le> rhe (x / ulp x)" by (rule rhe_ge)
  then show ?thesis using ulp_pos [of x] by (simp add: fl_def)
qed

lemma fl_nonpos: "x \<le> 0 \<Longrightarrow> fl x \<le> 0"
proof -
  assume "x \<le> 0"
  then have "x / ulp x \<le> of_int 0" using ulp_pos [of x] by (simp add: divide_le_0_iff)
  then have "rhe (x / ulp x) \<le> 0" by (rule rhe_le)
  then show ?thesis using ulp_pos [of x] by (simp add: fl_def mult_le_0_iff)
qed

lemma fl_mono_pos:
  assumes "0 < x" "x \<le> y"
  shows "fl x \<le> fl y"
proof -
  let ?ex = "max (ilog2 x) (- 1022)" and ?ey = "max (ilog2 y) (- 1022)"
  have y: "0 < y" using assms by simp
  have ux: "ulp x = 2 powi (?ex - 52)" using assms by (simp add: ulp_def)
  have uy: "ulp y = 2 powi (?ey - 52)" using y by (simp add: ulp_def)
  have fx: "fl x = of_int (rhe (x / ulp x)) * ulp x" using assms by (simp add: fl_def)
  have fy: "fl y = of_int (rhe (y / ulp y)) * ulp y" using y by (simp add: fl_def)
  have le: "?ex \<le> ?ey" using ilog2_mono [OF assms] by simp
  show ?thesis
  proof (cases "?ex = ?ey")
    case True
    then have u: "ulp x = ulp y" by (simp only: ux uy)
    have "x / ulp y \<le> y / ulp y" using assms ulp_pos [of y] by (simp add: divide_right_mono)
    then have "rhe (x / ulp y) \<le> rhe (y / ulp y)" by (rule rhe_mono)
    then have "(of_int (rhe (x / ulp y)) :: rat) \<le> of_int (rhe (y / ulp y))" by simp
    then show ?thesis
      unfolding fx fy u using ulp_pos [of y] by (simp add: mult_right_mono)
  next
    case False
    with le have lt: "?ex + 1 \<le> ?ey" by simp
    then have ey: "?ey = ilog2 y" by simp
    have "x < 2 powi (ilog2 x + 1)" using ilog2_bounds [OF assms(1)] by simp
    also have "\<dots> \<le> 2 powi (?ex + 1)" by (rule pow2_mono) simp
    finally have "x / ulp x < 2 powi (?ex + 1) / ulp x"
      using ulp_pos [of x] by (simp add: divide_strict_right_mono)
    also have "\<dots> = of_int (2 ^ 53)"
      unfolding ux pow2_diff pow2_add by (simp add: pow2_pos)
    finally have "rhe (x / ulp x) \<le> 2 ^ 53"
      by (intro rhe_le less_imp_le)
    then have "(of_int (rhe (x / ulp x)) :: rat) \<le> of_int (2 ^ 53)"
      by (simp only: of_int_le_iff)
    then have "fl x \<le> of_int (2 ^ 53) * ulp x"
      unfolding fx using ulp_pos [of x] by (simp add: mult_right_mono)
    also have "\<dots> = 2 powi (?ex + 1)"
      unfolding ux pow2_diff pow2_add by (simp add: pow2_pos)
    also have "\<dots> \<le> 2 powi ?ey" using lt by (rule pow2_mono)
    finally have a: "fl x \<le> 2 powi ?ey" .
    have "2 powi ?ey \<le> y" using ilog2_bounds [OF y] ey by simp
    then have "2 powi ?ey / ulp y \<le> y / ulp y"
      using ulp_pos [of y] by (simp add: divide_right_mono)
    moreover have "2 powi ?ey / ulp y = of_int (2 ^ 52)"
      unfolding uy pow2_diff by (simp add: pow2_pos)
    ultimately have "of_int (2 ^ 52) \<le> y / ulp y" by simp
    then have "2 ^ 52 \<le> rhe (y / ulp y)" by (rule rhe_ge)
    then have "(of_int (2 ^ 52) :: rat) \<le> of_int (rhe (y / ulp y))"
      by (simp only: of_int_le_iff)
    then have "of_int (2 ^ 52) * ulp y \<le> fl y"
      unfolding fy using ulp_pos [of y] by (simp add: mult_right_mono)
    moreover have "of_int (2 ^ 52) * ulp y = 2 powi ?ey"
      unfolding uy pow2_diff by (simp add: pow2_pos)
    ultimately have "2 powi ?ey \<le> fl y" by simp
    with a show ?thesis by simp
  qed
qed

lemma fl_mono: "0 \<le> x \<Longrightarrow> x \<le> y \<Longrightarrow> fl x \<le> fl y"
proof (cases "x = 0")
  case True
  assume "0 \<le> x" "x \<le> y"
  then show ?thesis using True fl_nonneg [of y] by (simp add: fl_def)
next
  case False
  assume "0 \<le> x" "x \<le> y"
  then show ?thesis using False fl_mono_pos [of x y] by simp
qed

lemma fl_values:
  "fl 0 = 0" "fl 1 = 1" "fl 10 = 10" "fl 50 = 50" "fl 100 = 100"
  by code_simp+

subsection \<open>Scores stay between 0 and 100\<close>

lemma correctness_loop_eq:
  "correctness_loop cs a g (rs, m) =
     (rs @ map (\<lambda>c. \<lparr>rr_type = ''correctness'', rr_criteria = criteria c,
                      rr_met = fst (check_criterion (criteria c) a g),
                      rr_evidence = snd (check_criterion (criteria c) a g)\<rparr>) cs,
      m + length (filter (\<lambda>c. fst (check_criterion (criteria c) a g)) cs))"
  by (induction cs arbitrary: rs m) (simp_all split: prod.splits)

lemma contradiction_loop_eq:
  "contradiction_loop cs a g stat (rs, h) =
     (rs @ map (\<lambda>c. \<lparr>rr_type = ''contradiction'', rr_criteria = criteria c,
                      rr_met = fst (check_criterion (criteria c) a g),
                      rr_evidence = snd (check_criterion (criteria c) a g)\<rparr>) cs,
      h \<or> (stat = ''Answered'' \<and> (\<exists>c \<in> set cs. \<not> fst (check_criterion (criteria c) a g))))"
  by (induction cs arbitrary: rs h) (auto split: prod.splits)

lemma base_score_bounds:
  assumes "m \<le> n"
  shows "0 \<le> base_score stat m n \<and> base_score stat m n \<le> 100"
proof (cases "n > 0")
  case False
  then show ?thesis by (simp add: base_score_def)
next
  case True
  have q0: "(0::rat) \<le> of_nat m / of_nat n" by simp
  have q1: "(of_nat m :: rat) / of_nat n \<le> 1" using assms True by simp
  have f0: "0 \<le> fdiv (of_nat m) (of_nat n)"
    unfolding fdiv_def using q0 by (rule fl_nonneg)
  have f1: "fdiv (of_nat m) (of_nat n) \<le> 1"
    unfolding fdiv_def using fl_mono [OF q0 q1] by (simp add: fl_values)
  have "0 \<le> fdiv (of_nat m) (of_nat n) * 100" using f0 by simp
  moreover have "fdiv (of_nat m) (of_nat n) * 100 \<le> 100" using f1 by simp
  ultimately have "0 \<le> fmul (fdiv (of_nat m) (of_nat n)) 100 \<and>
      fmul (fdiv (of_nat m) (of_nat n)) 100 \<le> 100"
    unfolding fmul_def using fl_nonneg fl_mono [of "fdiv (of_nat m) (of_nat n) * 100" 100]
    by (simp add: fl_values)
  then show ?thesis using True by (simp add: base_score_def)
qed

lemma penalize_bounds:
  assumes "0 \<le> s" "s \<le> 100"
  shows "0 \<le> penalize h s \<and> penalize h s \<le> 100"
proof (cases "h \<and> s < 30")
  case False
  then show ?thesis using assms by (auto simp: penalize_def)
next
  case True
  have "fsub s 20 \<le> 100"
  proof (cases "s - 20 \<le> 0")
    case True
    then have "fl (s - 20) \<le> 0" by (rule fl_nonpos)
    then show ?thesis by (simp add: fsub_def)
  next
    case False
    then have "0 \<le> s - 20" "s - 20 \<le> 10" using True by simp_all
    then have "fl (s - 20) \<le> fl 10" by (rule fl_mono)
    then show ?thesis by (simp add: fsub_def fl_values)
  qed
  then show ?thesis using True by (simp add: penalize_def)
qed

lemma half_bounds:
  assumes "0 \<le> s" "s \<le> 100"
  shows "0 \<le> fmul s (1 / 2) \<and> fmul s (1 / 2) \<le> 100"
proof -
  have a: "0 \<le> s * (1 / 2)" "s * (1 / 2) \<le> 50" using assms by simp_all
  have "0 \<le> fl (s * (1 / 2))" using a(1) by (rule fl_nonneg)
  moreover have "fl (s * (1 / 2)) \<le> fl 50" using a by (rule fl_mono)
  ultimately show ?thesis by (simp add: fmul_def fl_values)
qed

lemma round1_bounds:
  assumes "0 \<le> s" "s \<le> 100"
  shows "0 \<le> round1 s \<and> round1 s \<le> 100"
proof -
  have "of_int 0 \<le> s * 10" "s * 10 \<le> of_int 1000" using assms by simp_all
  then have "0 \<le> rhe (s * 10)" "rhe (s * 10) \<le> 1000"
    by (simp_all only: rhe_ge rhe_le)
  then have a: "(0::rat) \<le> of_int (rhe (s * 10)) / 10" "(of_int (rhe (s * 10)) :: rat) / 10 \<le> 100"
    by simp_all
  have "0 \<le> fl (of_int (rhe (s * 10)) / 10)" using a(1) by (rule fl_nonneg)
  moreover have "fl (of_int (rhe (s * 10)) / 10) \<le> fl 100" using a by (rule fl_mono)
  ultimately show ?thesis by (simp add: round1_def fl_values)
qed


lemma grade_locals_unfold:
  "grade_locals ad g =
     (let answer_text = (case ad_answer ad of None \<Rightarrow> [] | Some t \<Rightarrow> t);
          stat = answer_status answer_text;
          cc = filter (\<lambda>r. operator r = ''correctness'') (gt_rubric g);
          xc = filter (\<lambda>r. operator r = ''contradiction'') (gt_rubric g);
          met = length (filter (\<lambda>c. fst (check_criterion (criteria c) answer_text (gt_answer g))) cc);
          hc = (stat = ''Answered'' \<and>
                (\<exists>c \<in> set xc. \<not> fst (check_criterion (criteria c) answer_text (gt_answer g))));
          score1 = base_score stat met (length cc);
          score2 = penalize hc score1;
          quality = grade_sources (case ad_sources ad of None \<Rightarrow> [] | Some ss \<Rightarrow> ss);
          result = (\<lambda>ty c. \<lparr>rr_type = ty, rr_criteria = criteria c,
                      rr_met = fst (check_criterion (criteria c) answer_text (gt_answer g)),
                      rr_evidence = snd (check_criterion (criteria c) answer_text (gt_answer g))\<rparr>)
      in \<lparr>v_status = stat, v_met_count = met, v_criteria_count = length cc,
          v_base_score = score1, v_has_contradictions = hc, v_correctness_score = score2,
          v_sources_quality = quality,
          v_rubric_results = map (result ''correctness'') cc @ map (result ''contradiction'') xc,
          v_final_score = fst (adjust_score stat score2 hc met (length cc) quality),
          v_comments = snd (adjust_score stat score2 hc met (length cc) quality)\<rparr>)"
  by (simp add: grade_locals_def Let_def correctness_loop_eq contradiction_loop_eq
      split: prod.splits)


lemma locals_bounds:
  "0 \<le> v_base_score (grade_locals ad g) \<and> v_base_score (grade_locals ad g) \<le> 100 \<and>
   0 \<le> v_correctness_score (grade_locals ad g) \<and> v_correctness_score (grade_locals ad g) \<le> 100 \<and>
   0 \<le> v_final_score (grade_locals ad g) \<and> v_final_score (grade_locals ad g) \<le> 100"
proof -
  define atext where "atext = (case ad_answer ad of None \<Rightarrow> [] | Some t \<Rightarrow> t)"
  define cc where "cc = filter (\<lambda>r. operator r = ''correctness'') (gt_rubric g)"
  define met where
    "met = length (filter (\<lambda>c. fst (check_criterion (criteria c) atext (gt_answer g))) cc)"
  define s1 where "s1 = base_score (answer_status atext) met (length cc)"
  have "met \<le> length cc" unfolding met_def by (rule length_filter_le)
  then have b1: "0 \<le> s1 \<and> s1 \<le> 100" unfolding s1_def by (rule base_score_bounds)
  then have b2: "0 \<le> penalize h s1 \<and> penalize h s1 \<le> 100" for h
    by (simp add: penalize_bounds)
  have b3: "0 \<le> fst (adjust_score st (penalize h s1) h' m n qual) \<and>
      fst (adjust_score st (penalize h s1) h' m n qual) \<le> 100" for st h h' m n qual
    using b2 [of h] half_bounds [of "penalize h s1"] by (simp add: adjust_score_def)
  show ?thesis
    using b1 b2 b3
    unfolding grade_locals_unfold Let_def s1_def met_def cc_def atext_def
    by simp
qed

text \<open>
  Claim C7. For every rubric and every answer, the \<open>correctness_score\<close> and the
  \<open>final_score\<close> that \<open>grade_answer\<close> returns lie between 0 and 100, and so do the
  values of the two variables before they are rounded. The quotient of the met criteria
  by all criteria is at most 1, and rounding to a double is monotone and keeps 0, 1, 10,
  50 and 100 fixed, so the product with 100, the criterion-free defaults 0 and 50, the
  penalty floored at 0, the halving and the rounding to one decimal stay in the range.
\<close>

theorem scores_in_range:
  "0 \<le> correctness_score (grade_answer q ad g) \<and>
   correctness_score (grade_answer q ad g) \<le> 100 \<and>
   0 \<le> final_score (grade_answer q ad g) \<and>
   final_score (grade_answer q ad g) \<le> 100 \<and>
   0 \<le> v_correctness_score (grade_locals ad g) \<and>
   v_correctness_score (grade_locals ad g) \<le> 100 \<and>
   0 \<le> v_final_score (grade_locals ad g) \<and>
   v_final_score (grade_locals ad g) \<le> 100"
  using locals_bounds [of ad g]
    round1_bounds [of "v_correctness_score (grade_locals ad g)"]
    round1_bounds [of "v_final_score (grade_locals ad g)"]
  by (simp add: grade_answer_def Let_def)

theorem scores_in_range_witness:
  "0 \<le> correctness_score (grade_answer 1 example_answer example_truth) \<and>
   correctness_score (grade_answer 1 example_answer example_truth) \<le> 100 \<and>
   0 \<le> final_score (grade_answer 1 example_answer example_truth) \<and>
   final_score (grade_answer 1 example_answer example_truth) \<le> 100"
  using scores_in_range [of 1 example_answer example_truth] by simp

subsection \<open>The contradiction penalty\<close>

lemma penalize_20: "penalize True 20 = 0"
  by code_simp

lemma round1_0: "round1 0 = 0"
  by code_simp

lemma unmet_contradiction_iff:
  "(\<exists>x \<in> set (map (\<lambda>c. \<lparr>rr_type = ''correctness'', rr_criteria = A c, rr_met = M c,
                              rr_evidence = E c\<rparr>) cc @
                   map (\<lambda>c. \<lparr>rr_type = ''contradiction'', rr_criteria = A c, rr_met = M c,
                              rr_evidence = E c\<rparr>) xc).
      rr_type x = ''contradiction'' \<and> \<not> rr_met x) \<longleftrightarrow> (\<exists>c \<in> set xc. \<not> M c)"
proof -
  have "\<not> (\<exists>x \<in> set (map (\<lambda>c. \<lparr>rr_type = ''correctness'', rr_criteria = A c, rr_met = M c,
                              rr_evidence = E c\<rparr>) cc). rr_type x = ''contradiction'' \<and> \<not> rr_met x)"
    by (induction cc) simp_all
  moreover have "(\<exists>x \<in> set (map (\<lambda>c. \<lparr>rr_type = ''contradiction'', rr_criteria = A c, rr_met = M c,
                              rr_evidence = E c\<rparr>) xc). rr_type x = ''contradiction'' \<and> \<not> rr_met x)
      \<longleftrightarrow> (\<exists>c \<in> set xc. \<not> M c)"
    by (induction xc) simp_all
  ultimately show ?thesis
    by (simp only: set_append bex_Un) simp
qed

lemma locals_penalty:
  "v_correctness_score (grade_locals ad g) =
     penalize (v_has_contradictions (grade_locals ad g)) (v_base_score (grade_locals ad g))"
  by (simp add: grade_locals_def Let_def split: prod.splits)

lemma locals_final:
  "v_final_score (grade_locals ad g) =
     fst (adjust_score (v_status (grade_locals ad g)) (v_correctness_score (grade_locals ad g))
       (v_has_contradictions (grade_locals ad g)) (v_met_count (grade_locals ad g))
       (v_criteria_count (grade_locals ad g)) (v_sources_quality (grade_locals ad g)))"
  by (simp add: grade_locals_def Let_def split: prod.splits)

lemma locals_base:
  "v_base_score (grade_locals ad g) =
     base_score (v_status (grade_locals ad g)) (v_met_count (grade_locals ad g))
       (v_criteria_count (grade_locals ad g))"
  by (simp add: grade_locals_def Let_def split: prod.splits)

lemma locals_projections:
  "v_status (grade_locals ad g) =
     answer_status (case ad_answer ad of None \<Rightarrow> [] | Some t \<Rightarrow> t)"
  "v_criteria_count (grade_locals ad g) =
     length (filter (\<lambda>r. operator r = ''correctness'') (gt_rubric g))"
  "v_met_count (grade_locals ad g) =
     length (filter (\<lambda>c. fst (check_criterion (criteria c)
          (case ad_answer ad of None \<Rightarrow> [] | Some t \<Rightarrow> t) (gt_answer g)))
       (filter (\<lambda>r. operator r = ''correctness'') (gt_rubric g)))"
  "v_has_contradictions (grade_locals ad g) =
     (v_status (grade_locals ad g) = ''Answered'' \<and>
      list_ex (\<lambda>c. \<not> fst (check_criterion (criteria c)
          (case ad_answer ad of None \<Rightarrow> [] | Some t \<Rightarrow> t) (gt_answer g)))
       (filter (\<lambda>r. operator r = ''contradiction'') (gt_rubric g)))"
  by (simp_all add: grade_locals_unfold Let_def list_ex_iff)

text \<open>
  Claim C3. \<open>has_contradictions\<close> is true exactly when the status is \<^verbatim>\<open>Answered\<close> and
  some contradiction criterion is reported as not met. The penalty block replaces the
  correctness score \<open>s\<close> by \<open>max 0 (s - 20)\<close> (a floating-point subtraction) exactly
  when \<open>has_contradictions\<close> is true and \<open>s < 30\<close>, and leaves it unchanged otherwise.
  In particular, with status \<^verbatim>\<open>Answered\<close>, a correctness score of 20 and
  \<open>has_contradictions\<close> true, the final score is 0, before and after the rounding of the
  returned result. The status, the flag and the rubric results of the returned result
  are those of the local variables.
\<close>

theorem contradiction_penalty:
  "(v_has_contradictions (grade_locals ad g) \<longleftrightarrow>
      v_status (grade_locals ad g) = ''Answered'' \<and>
      (\<exists>x \<in> set (v_rubric_results (grade_locals ad g)).
         rr_type x = ''contradiction'' \<and> \<not> rr_met x)) \<and>
   v_correctness_score (grade_locals ad g) =
     (if v_has_contradictions (grade_locals ad g) \<and> v_base_score (grade_locals ad g) < 30
      then max 0 (fsub (v_base_score (grade_locals ad g)) 20)
      else v_base_score (grade_locals ad g)) \<and>
   (v_status (grade_locals ad g) = ''Answered'' \<and> v_base_score (grade_locals ad g) = 20 \<and>
    v_has_contradictions (grade_locals ad g) \<longrightarrow>
      v_final_score (grade_locals ad g) = 0 \<and> final_score (grade_answer q ad g) = 0) \<and>
   has_contradictions (grade_answer q ad g) = v_has_contradictions (grade_locals ad g) \<and>
   status (grade_answer q ad g) = v_status (grade_locals ad g) \<and>
   rubric_results (grade_answer q ad g) = v_rubric_results (grade_locals ad g)"
proof (intro conjI)
  show "v_has_contradictions (grade_locals ad g) \<longleftrightarrow>
      v_status (grade_locals ad g) = ''Answered'' \<and>
      (\<exists>x \<in> set (v_rubric_results (grade_locals ad g)).
         rr_type x = ''contradiction'' \<and> \<not> rr_met x)"
  proof -
    define atext where "atext = (case ad_answer ad of None \<Rightarrow> [] | Some t \<Rightarrow> t)"
    define cc where "cc = filter (\<lambda>r. operator r = ''correctness'') (gt_rubric g)"
    define xc where "xc = filter (\<lambda>r. operator r = ''contradiction'') (gt_rubric g)"
    define M where "M = (\<lambda>c::criterion. fst (check_criterion (criteria c) atext (gt_answer g)))"
    define E where "E = (\<lambda>c::criterion. snd (check_criterion (criteria c) atext (gt_answer g)))"
    have hc: "v_has_contradictions (grade_locals ad g) =
        (answer_status atext = ''Answered'' \<and> (\<exists>c \<in> set xc. \<not> M c))"
      unfolding atext_def xc_def M_def by (simp add: grade_locals_unfold Let_def)
    have st: "v_status (grade_locals ad g) = answer_status atext"
      unfolding atext_def by (simp add: grade_locals_unfold Let_def)
    have rr: "v_rubric_results (grade_locals ad g) =
        map (\<lambda>c. \<lparr>rr_type = ''correctness'', rr_criteria = criteria c, rr_met = M c,
                    rr_evidence = E c\<rparr>) cc @
        map (\<lambda>c. \<lparr>rr_type = ''contradiction'', rr_criteria = criteria c, rr_met = M c,
                    rr_evidence = E c\<rparr>) xc"
      unfolding atext_def cc_def xc_def M_def E_def by (simp add: grade_locals_unfold Let_def)
    show ?thesis
      unfolding hc st rr by (simp only: unmet_contradiction_iff)
  qed
  show "v_correctness_score (grade_locals ad g) =
     (if v_has_contradictions (grade_locals ad g) \<and> v_base_score (grade_locals ad g) < 30
      then max 0 (fsub (v_base_score (grade_locals ad g)) 20)
      else v_base_score (grade_locals ad g))"
    by (simp add: locals_penalty [of ad g] penalize_def)
  have "v_final_score (grade_locals ad g) = 0"
    if "v_status (grade_locals ad g) = ''Answered''" "v_base_score (grade_locals ad g) = 20"
      "v_has_contradictions (grade_locals ad g)"
    using that by (simp add: locals_final [of ad g] locals_penalty [of ad g] adjust_score_def penalize_20)
  then show "v_status (grade_locals ad g) = ''Answered'' \<and> v_base_score (grade_locals ad g) = 20 \<and>
    v_has_contradictions (grade_locals ad g) \<longrightarrow>
      v_final_score (grade_locals ad g) = 0 \<and> final_score (grade_answer q ad g) = 0"
    by (simp add: grade_answer_def Let_def round1_0)
  show "has_contradictions (grade_answer q ad g) = v_has_contradictions (grade_locals ad g)"
    by (simp add: grade_answer_def Let_def)
  show "status (grade_answer q ad g) = v_status (grade_locals ad g)"
    by (simp add: grade_answer_def Let_def)
  show "rubric_results (grade_answer q ad g) = v_rubric_results (grade_locals ad g)"
    by (simp add: grade_answer_def Let_def)
qed

lemma example_check1:
  "fst (check_criterion ''Revenue grew 44.7%''
     ''FINAL ANSWER: revenue grew 44.7% over the year'' g) = True"
  by code_simp

lemma example_check2:
  "fst (check_criterion ''Operating margin was 13%''
     ''FINAL ANSWER: revenue grew 44.7% over the year'' g) = False"
  by code_simp

lemma example_check3:
  "fst (check_criterion ''Net income was 250 million''
     ''FINAL ANSWER: revenue grew 44.7% over the year'' g) = False"
  by code_simp

lemma example_check4:
  "fst (check_criterion ''Guidance was raised to 900 million''
     ''FINAL ANSWER: revenue grew 44.7% over the year'' g) = False"
  by code_simp

lemma example_check5:
  "fst (check_criterion ''Headcount rose by 1,200''
     ''FINAL ANSWER: revenue grew 44.7% over the year'' g) = False"
  by code_simp

lemma example_check6:
  "fst (check_criterion ''Profit declined by 3%''
     ''FINAL ANSWER: revenue grew 44.7% over the year'' g) = False"
  by code_simp

lemma example_status:
  "answer_status ''FINAL ANSWER: revenue grew 44.7% over the year'' = ''Answered''"
  by code_simp

lemma example_base: "base_score ''Answered'' 1 5 = 20"
  by code_simp

lemmas example_checks =
  example_check1 example_check2 example_check3 example_check4 example_check5 example_check6
  example_status

lemma example_locals:
  "v_status (grade_locals example_answer example_truth) = ''Answered''"
  "v_met_count (grade_locals example_answer example_truth) = 1"
  "v_criteria_count (grade_locals example_answer example_truth) = 5"
  "v_has_contradictions (grade_locals example_answer example_truth) = True"
  "v_base_score (grade_locals example_answer example_truth) = 20"
proof -
  show s: "v_status (grade_locals example_answer example_truth) = ''Answered''"
    by (simp add: locals_projections(1) example_answer_def example_checks)
  show m: "v_met_count (grade_locals example_answer example_truth) = 1"
    by (simp add: locals_projections(3) example_answer_def example_truth_def example_checks)
  show n: "v_criteria_count (grade_locals example_answer example_truth) = 5"
    by (simp add: locals_projections(2) example_truth_def)
  show "v_has_contradictions (grade_locals example_answer example_truth) = True"
    unfolding locals_projections(4) s
    by (simp add: example_answer_def example_truth_def example_checks)
  show "v_base_score (grade_locals example_answer example_truth) = 20"
    by (simp only: locals_base s m n example_base)
qed

theorem contradiction_penalty_witness:
  "v_status (grade_locals example_answer example_truth) = ''Answered'' \<and>
   v_base_score (grade_locals example_answer example_truth) = 20 \<and>
   v_has_contradictions (grade_locals example_answer example_truth) \<and>
   has_contradictions (grade_answer 1 example_answer example_truth) \<and>
   final_score (grade_answer 1 example_answer example_truth) = 0"
  using contradiction_penalty [of example_answer example_truth 1]
  by (simp add: example_locals)

subsection \<open>The final score\<close>


















subsection \<open>Loading the ground truth\<close>

lemma load_rows_result:
  assumes "load_rows ev ti rows n gt = Inr gt'"
  shows "(\<forall>k. k < n \<or> n + int (length (filter (\<lambda>r. Question r \<noteq> []) rows)) \<le> k \<longrightarrow> gt' k = gt k) \<and>
         (\<forall>i < length (filter (\<lambda>r. Question r \<noteq> []) rows).
            \<exists>d. row_entry ev ti (filter (\<lambda>r. Question r \<noteq> []) rows ! i) = Inr d \<and>
                gt' (n + int i) = Some d)"
  using assms
proof (induction rows arbitrary: n gt)
  case Nil
  then show ?case by simp
next
  case (Cons row rows)
  let ?kept = "filter (\<lambda>r. Question r \<noteq> []) rows"
  show ?case
  proof (cases "Question row \<noteq> []")
    case False
    then have "load_rows ev ti rows n gt = Inr gt'" using Cons.prems by simp
    note ih = Cons.IH [OF this]
    have "filter (\<lambda>r. Question r \<noteq> []) (row # rows) = ?kept" using False by simp
    then show ?thesis using ih by (simp only:)
  next
    case True
    then obtain d where d: "row_entry ev ti row = Inr d"
      and rest: "load_rows ev ti rows (n + 1) (gt(n \<mapsto> d)) = Inr gt'"
      using Cons.prems by (auto split: sum.splits)
    note ih = Cons.IH [OF rest]
    have outside: "gt' k = gt k" if "k < n \<or> n + int (length (row # ?kept)) \<le> k" for k
    proof -
      from that have "k < n + 1 \<or> n + 1 + int (length ?kept) \<le> k" by auto
      with ih have "gt' k = (gt(n \<mapsto> d)) k" by blast
      moreover from that have "k \<noteq> n" by auto
      ultimately show ?thesis by simp
    qed
    have first: "gt' n = Some d"
    proof -
      have "n < n + 1" by simp
      with ih have "gt' n = (gt(n \<mapsto> d)) n" by blast
      then show ?thesis by simp
    qed
    have inside: "\<exists>e. row_entry ev ti ((row # ?kept) ! i) = Inr e \<and> gt' (n + int i) = Some e"
      if "i < length (row # ?kept)" for i
    proof (cases i)
      case 0
      then show ?thesis using d first by simp
    next
      case (Suc j)
      then have "j < length ?kept" using that by simp
      then obtain e where "row_entry ev ti (?kept ! j) = Inr e" "gt' (n + 1 + int j) = Some e"
        using ih by blast
      then show ?thesis using Suc by (simp add: algebra_simps)
    qed
    have "filter (\<lambda>r. Question r \<noteq> []) (row # rows) = row # ?kept" using True by simp
    then show ?thesis using outside inside by (simp only:) blast
  qed
qed

lemma load_rows_succeeds:
  "(\<forall>r \<in> set (filter (\<lambda>r. Question r \<noteq> []) rows). \<exists>d. row_entry ev ti r = Inr d) \<Longrightarrow>
     \<exists>gt'. load_rows ev ti rows n gt = Inr gt'"
proof (induction rows arbitrary: n gt)
  case Nil
  show ?case by simp
next
  case (Cons row rows)
  show ?case
  proof (cases "Question row \<noteq> []")
    case False
    then have "\<forall>r \<in> set (filter (\<lambda>r. Question r \<noteq> []) rows). \<exists>d. row_entry ev ti r = Inr d"
      using Cons.prems by simp
    then obtain gt' where "load_rows ev ti rows n gt = Inr gt'"
      using Cons.IH [of n gt] by blast
    then show ?thesis using False by simp
  next
    case True
    then obtain d where d: "row_entry ev ti row = Inr d" using Cons.prems by auto
    have "\<forall>r \<in> set (filter (\<lambda>r. Question r \<noteq> []) rows). \<exists>d. row_entry ev ti r = Inr d"
      using Cons.prems by simp
    then obtain gt' where "load_rows ev ti rows (n + 1) (gt(n \<mapsto> d)) = Inr gt'"
      using Cons.IH [of "n + 1" "gt(n \<mapsto> d)"] by blast
    then show ?thesis using True d by simp
  qed
qed


lemma load_ground_truth_keys:
  assumes "\<forall>r \<in> set (filter (\<lambda>r. Question r \<noteq> []) rows). \<exists>d. row_entry ev ti r = Inr d"
  shows "\<exists>gt. load_ground_truth ev ti rows = Inr gt \<and>
           dom gt = {1 .. int (length (filter (\<lambda>r. Question r \<noteq> []) rows))} \<and>
           (\<forall>i < length (filter (\<lambda>r. Question r \<noteq> []) rows).
              \<exists>d. row_entry ev ti (filter (\<lambda>r. Question r \<noteq> []) rows ! i) = Inr d \<and>
                  gt (int i + 1) = Some d)"
proof -
  let ?kept = "filter (\<lambda>r. Question r \<noteq> []) rows"
  obtain gt where gt: "load_rows ev ti rows 1 Map.empty = Inr gt"
    using load_rows_succeeds [OF assms] by blast
  note r = load_rows_result [OF gt]
  have inside: "\<exists>d. row_entry ev ti (?kept ! i) = Inr d \<and> gt (int i + 1) = Some d"
    if "i < length ?kept" for i
    using r that by (simp add: add.commute)
  have "dom gt = {1 .. int (length ?kept)}"
  proof (rule set_eqI)
    fix k
    show "k \<in> dom gt \<longleftrightarrow> k \<in> {1 .. int (length ?kept)}"
    proof (cases "k < 1 \<or> 1 + int (length ?kept) \<le> k")
      case True
      with r have "gt k = Map.empty k" by blast
      then have "gt k = None" by simp
      then show ?thesis using True by auto
    next
      case False
      then have "nat (k - 1) < length ?kept" by auto
      then obtain d where "gt (int (nat (k - 1)) + 1) = Some d" using inside by blast
      moreover have "int (nat (k - 1)) + 1 = k" using False by simp
      ultimately have "gt k = Some d" by simp
      then show ?thesis using False by auto
    qed
  qed
  then show ?thesis using gt inside by (auto simp: load_ground_truth_def)
qed




subsection \<open>Loading the answers\<close>

lemma load_items_untouched:
  "load_items items ans0 = Inr ans \<Longrightarrow>
   \<forall>item \<in> set items. item_question_number item \<noteq> Some n \<Longrightarrow> ans n = ans0 n"
proof (induction items arbitrary: ans0)
  case Nil
  then show ?case by simp
next
  case (Cons item items)
  from Cons.prems(1) obtain d m where d: "item_entry item = Inr d"
    and m: "item_question_number item = Some m"
    and rest: "load_items items (ans0(m \<mapsto> d)) = Inr ans"
    by (auto split: sum.splits option.splits)
  have "\<forall>item \<in> set items. item_question_number item \<noteq> Some n" using Cons.prems(2) by simp
  with rest have "ans n = (ans0(m \<mapsto> d)) n" by (rule Cons.IH)
  moreover have "m \<noteq> n" using Cons.prems(2) m by auto
  ultimately show ?case by simp
qed

lemma load_items_append:
  "load_items (xs @ ys) ans0 =
     (case load_items xs ans0 of Inl e \<Rightarrow> Inl e | Inr a \<Rightarrow> load_items ys a)"
  by (induction xs arbitrary: ans0) (simp_all split: sum.splits option.splits)

lemma load_items_last:
  assumes "load_items (xs @ item # ys) ans0 = Inr ans"
    and "item_question_number item = Some n"
    and "\<forall>y \<in> set ys. item_question_number y \<noteq> Some n"
  shows "\<exists>d. item_entry item = Inr d \<and> ans n = Some d"
proof -
  from assms(1) obtain a where "load_items (item # ys) a = Inr ans"
    by (auto simp: load_items_append split: sum.splits)
  then obtain d where d: "item_entry item = Inr d"
    and rest: "load_items ys (a(n \<mapsto> d)) = Inr ans"
    using assms(2) by (auto split: sum.splits)
  from rest assms(3) have "ans n = (a(n \<mapsto> d)) n" by (rule load_items_untouched)
  then show ?thesis using d by simp
qed

lemma load_items_succeeds:
  "\<forall>item \<in> set items. item_question item \<noteq> None \<and> item_question_number item \<noteq> None \<Longrightarrow>
     \<exists>ans. load_items items ans0 = Inr ans"
proof (induction items arbitrary: ans0)
  case Nil
  show ?case by simp
next
  case (Cons item items)
  from Cons.prems obtain qt m where q: "item_question item = Some qt"
    and m: "item_question_number item = Some m" by auto
  have "\<forall>item \<in> set items. item_question item \<noteq> None \<and> item_question_number item \<noteq> None"
    using Cons.prems by simp
  from Cons.IH [OF this] show ?case using q m by (simp add: item_entry_def)
qed

lemma load_items_dom:
  "load_items items ans0 = Inr ans \<Longrightarrow>
     dom ans = dom ans0 \<union> {n. \<exists>item \<in> set items. item_question_number item = Some n}"
proof (induction items arbitrary: ans0)
  case Nil
  then show ?case by simp
next
  case (Cons item items)
  from Cons.prems obtain d m where m: "item_question_number item = Some m"
    and rest: "load_items items (ans0(m \<mapsto> d)) = Inr ans"
    by (auto split: sum.splits option.splits)
  have "dom (ans0(m \<mapsto> d)) = insert m (dom ans0)" by simp
  with Cons.IH [OF rest]
  have "dom ans = insert m (dom ans0) \<union> {n. \<exists>item \<in> set items. item_question_number item = Some n}"
    by (simp only:)
  moreover have "{n. \<exists>i \<in> set (item # items). item_question_number i = Some n} =
      insert m {n. \<exists>item \<in> set items. item_question_number item = Some n}"
    using m by auto
  ultimately show ?case by auto
qed


text \<open>
  Claim C9. When every element has the keys \<^verbatim>\<open>question\<close> and \<^verbatim>\<open>question_number\<close>,
  \<open>load_answers\<close> returns a mapping whose keys are the question numbers of the list, and
  the entry of a number is built from the last element with that number: its question,
  its answer or the empty string when the key \<^verbatim>\<open>answer\<close> is absent, and its sources or
  the empty list when the key \<^verbatim>\<open>sources\<close> is absent.
\<close>

theorem load_answers_last_wins:
  assumes "\<forall>item \<in> set items. item_question item \<noteq> None \<and> item_question_number item \<noteq> None"
  shows "\<exists>ans. load_answers items = Inr ans \<and>
           dom ans = {n. \<exists>item \<in> set items. item_question_number item = Some n} \<and>
           (\<forall>xs item ys n.
              items = xs @ item # ys \<and> item_question_number item = Some n \<and>
              (\<forall>y \<in> set ys. item_question_number y \<noteq> Some n) \<longrightarrow>
              ans n =
                Some \<lparr>ad_question = item_question item,
                      ad_answer = Some (case item_answer item of None \<Rightarrow> [] | Some a \<Rightarrow> a),
                      ad_sources =
                        Some (case item_sources item of None \<Rightarrow> [] | Some ss \<Rightarrow> ss)\<rparr>)"
proof -
  obtain ans where ans: "load_items items Map.empty = Inr ans"
    using load_items_succeeds [OF assms] by blast
  have d: "dom ans = {n. \<exists>item \<in> set items. item_question_number item = Some n}"
    using load_items_dom [OF ans] by simp
  have last: "ans n =
      Some \<lparr>ad_question = item_question item,
            ad_answer = Some (case item_answer item of None \<Rightarrow> [] | Some a \<Rightarrow> a),
            ad_sources = Some (case item_sources item of None \<Rightarrow> [] | Some ss \<Rightarrow> ss)\<rparr>"
    if "items = xs @ item # ys" "item_question_number item = Some n"
      "\<forall>y \<in> set ys. item_question_number y \<noteq> Some n" for xs item ys n
  proof -
    have "load_items (xs @ item # ys) Map.empty = Inr ans" using ans that(1) by simp
    from load_items_last [OF this that(2,3)]
    obtain e where e: "item_entry item = Inr e" "ans n = Some e" by blast
    then show ?thesis by (auto simp: item_entry_def split: option.splits)
  qed
  show ?thesis
    unfolding load_answers_def using ans d last by blast
qed


theorem load_answers_last_wins_witness:
  "\<exists>ans. load_answers example_items = Inr ans \<and> dom ans = {2, 5} \<and>
     ans 5 = Some \<lparr>ad_question = Some ''Q5'',
                   ad_answer = Some ''FINAL ANSWER: second answer'', ad_sources = Some []\<rparr> \<and>
     ans 2 = Some \<lparr>ad_question = Some ''Q2'', ad_answer = Some [], ad_sources = Some []\<rparr>"
proof -
  let ?i1 = "\<lparr>item_question_number = Some 5, item_question = Some ''Q5'',
        item_answer = Some ''first answer'',
        item_sources = Some [\<lparr>url = Some ''https://example.com'', name = Some ''Example''\<rparr>]\<rparr>"
  let ?i2 = "\<lparr>item_question_number = Some 2, item_question = Some ''Q2'', item_answer = None,
        item_sources = None\<rparr>"
  let ?i3 = "\<lparr>item_question_number = Some 5, item_question = Some ''Q5'',
        item_answer = Some ''FINAL ANSWER: second answer'', item_sources = None\<rparr>"
  have "\<forall>item \<in> set example_items.
      item_question item \<noteq> None \<and> item_question_number item \<noteq> None"
    by (simp add: example_items_def)
  from load_answers_last_wins [OF this]
  obtain ans where ans: "load_answers example_items = Inr ans"
    and d: "dom ans = {n. \<exists>item \<in> set example_items. item_question_number item = Some n}"
    and last: "\<And>xs item ys n.
        example_items = xs @ item # ys \<and> item_question_number item = Some n \<and>
        (\<forall>y \<in> set ys. item_question_number y \<noteq> Some n) \<Longrightarrow>
        ans n =
          Some \<lparr>ad_question = item_question item,
                ad_answer = Some (case item_answer item of None \<Rightarrow> [] | Some a \<Rightarrow> a),
                ad_sources = Some (case item_sources item of None \<Rightarrow> [] | Some ss \<Rightarrow> ss)\<rparr>"
    by blast
  have "dom ans = {2, 5}"
  proof -
    have "(\<exists>item \<in> set example_items. item_question_number item = Some n) \<longleftrightarrow>
        n = 2 \<or> n = 5" for n
      unfolding example_items_def by (simp add: eq_commute [of _ n] disj_ac)
    then show ?thesis
      unfolding d by (simp only: set_eq_iff mem_Collect_eq insert_iff empty_iff simp_thms)
  qed
  moreover have "ans 5 = Some \<lparr>ad_question = Some ''Q5'',
      ad_answer = Some ''FINAL ANSWER: second answer'', ad_sources = Some []\<rparr>"
    using last [of "[?i1, ?i2]" ?i3 "[]" 5] by (simp add: example_items_def)
  moreover have "ans 2 = Some \<lparr>ad_question = Some ''Q2'', ad_answer = Some [],
      ad_sources = Some []\<rparr>"
    using last [of "[?i1]" ?i2 "[?i3]" 2] by (simp add: example_items_def)
  ultimately show ?thesis using ans by blast
qed

subsection \<open>The report of \<^verbatim>\<open>main\<close>\<close>

lemma grade_loop_eq:
  "grade_loop qs gt ans acc =
     acc @ map (\<lambda>q. grade_answer q (case ans q of None \<Rightarrow> no_answer | Some a \<Rightarrow> a) (the (gt q)))
             (filter (\<lambda>q. gt q \<noteq> None) qs)"
  by (induction qs arbitrary: acc) (auto split: option.splits)

lemma filter_upto_le: "filter (\<lambda>q::int. q \<le> N) [a..b] = [a..min N b]"
proof (induction a b rule: upto.induct)
  case (1 i j)
  show ?case
  proof (cases "i \<le> j")
    case False
    then show ?thesis by simp
  next
    case True
    note ih = 1 [OF True]
    have u: "[i..j] = i # [i + 1..j]" using True by (simp add: upto.simps)
    show ?thesis
    proof (cases "i \<le> N")
      case True
      then have "[i..min N j] = i # [i + 1..min N j]" using \<open>i \<le> j\<close> by (simp add: upto.simps)
      then show ?thesis using True ih u by simp
    next
      case False
      then have "[i + 1..min N j] = []" "[i..min N j] = []" by simp_all
      then show ?thesis using False ih u by simp
    qed
  qed
qed

lemma graded_numbers:
  assumes "dom gt = {1 .. int N}"
  shows "filter (\<lambda>q. gt q \<noteq> None) [1..50] = [1 .. int (min N 50)]"
proof -
  have "gt q \<noteq> None \<longleftrightarrow> q \<le> int N" if "q \<in> set [1..50]" for q
  proof -
    have "gt q \<noteq> None \<longleftrightarrow> q \<in> dom gt" by auto
    then show ?thesis using that assms by simp
  qed
  then have "filter (\<lambda>q. gt q \<noteq> None) [1..50] = filter (\<lambda>q. q \<le> int N) [1..50]"
    by (intro filter_cong) auto
  also have "\<dots> = [1 .. min (int N) 50]" by (rule filter_upto_le)
  also have "min (int N) 50 = int (min N 50)" by simp
  finally show ?thesis .
qed

lemma question_num_grade_answer: "question_num (grade_answer q a g) = q"
  by (simp add: grade_answer_def Let_def)

lemma make_report_eq:
  assumes "dom gt = {1 .. int N}"
  shows "questions (make_report gt ans) =
     map (\<lambda>q. grade_answer q (case ans q of None \<Rightarrow> no_answer | Some a \<Rightarrow> a) (the (gt q)))
       [1 .. int (min N 50)]"
    and "map question_num (questions (make_report gt ans)) = [1 .. int (min N 50)]"
    and "total_questions (summary (make_report gt ans)) = min N 50"
proof -
  show q: "questions (make_report gt ans) =
     map (\<lambda>q. grade_answer q (case ans q of None \<Rightarrow> no_answer | Some a \<Rightarrow> a) (the (gt q)))
       [1 .. int (min N 50)]"
    unfolding make_report_def Let_def grade_loop_eq graded_numbers [OF assms] by simp
  show "map question_num (questions (make_report gt ans)) = [1 .. int (min N 50)]"
    unfolding q by (simp add: question_num_grade_answer comp_def)
  have "total_questions (summary (make_report gt ans)) = length (questions (make_report gt ans))"
    by (simp add: make_report_def Let_def calculate_summary_def)
  then show "total_questions (summary (make_report gt ans)) = min N 50"
    unfolding q by simp
qed

lemma grade_no_answer:
  "status (grade_answer q no_answer g) = ''Skipped'' \<and>
   final_score (grade_answer q no_answer g) = 0 \<and>
   sources_quality (grade_answer q no_answer g) = ''Poor''"
proof -
  have s: "v_status (grade_locals no_answer g) = ''Skipped''"
    by (simp add: locals_projections(1) no_answer_def answer_status_def)
  have "v_final_score (grade_locals no_answer g) = 0"
    by (simp add: locals_final [of no_answer g] s adjust_score_def)
  moreover have "v_sources_quality (grade_locals no_answer g) = ''Poor''"
    by (simp add: grade_locals_unfold Let_def no_answer_def grade_sources_def)
  ultimately show ?thesis
    using s by (simp add: grade_answer_def Let_def round1_0)
qed

lemma main_result:
  assumes rows: "\<forall>r \<in> set (filter (\<lambda>r. Question r \<noteq> []) rows). \<exists>d. row_entry ev ti r = Inr d"
    and items: "\<forall>item \<in> set items.
      item_question item \<noteq> None \<and> item_question_number item \<noteq> None"
  shows "\<exists>rep gt ans.
     main ev ti rows items = Inr rep \<and>
     load_ground_truth ev ti rows = Inr gt \<and>
     load_answers items = Inr ans \<and>
     dom gt = {1 .. int (length (filter (\<lambda>r. Question r \<noteq> []) rows))} \<and>
     map question_num (questions rep) =
       [1 .. int (min (length (filter (\<lambda>r. Question r \<noteq> []) rows)) 50)] \<and>
     total_questions (summary rep) = min (length (filter (\<lambda>r. Question r \<noteq> []) rows)) 50 \<and>
     (\<forall>q \<in> {1 .. int (min (length (filter (\<lambda>r. Question r \<noteq> []) rows)) 50)}.
        \<exists>g. gt q = Some g \<and>
            questions rep ! nat (q - 1) =
              grade_answer q (case ans q of None \<Rightarrow> no_answer | Some a \<Rightarrow> a) g \<and>
            (ans q = None \<longrightarrow>
               questions rep ! nat (q - 1) = grade_answer q no_answer g \<and>
               status (questions rep ! nat (q - 1)) = ''Skipped'' \<and>
               final_score (questions rep ! nat (q - 1)) = 0))"
proof -
  let ?N = "length (filter (\<lambda>r. Question r \<noteq> []) rows)"
  let ?M = "min ?N 50"
  obtain gt where gt: "load_ground_truth ev ti rows = Inr gt" and d: "dom gt = {1 .. int ?N}"
    using load_ground_truth_keys [OF rows] by blast
  obtain ans where ans: "load_answers items = Inr ans"
    using load_items_succeeds [OF items] unfolding load_answers_def by blast
  let ?rep = "make_report gt ans"
  let ?f = "\<lambda>q. grade_answer q (case ans q of None \<Rightarrow> no_answer | Some a \<Rightarrow> a) (the (gt q))"
  have m: "main ev ti rows items = Inr ?rep"
    by (simp add: main_def gt ans)
  note r = make_report_eq [OF d, of ans]
  have each: "\<exists>g. gt q = Some g \<and>
      questions ?rep ! nat (q - 1) =
        grade_answer q (case ans q of None \<Rightarrow> no_answer | Some a \<Rightarrow> a) g \<and>
      (ans q = None \<longrightarrow>
         questions ?rep ! nat (q - 1) = grade_answer q no_answer g \<and>
         status (questions ?rep ! nat (q - 1)) = ''Skipped'' \<and>
         final_score (questions ?rep ! nat (q - 1)) = 0)"
    if "q \<in> {1 .. int ?M}" for q
  proof -
    from that have "q \<in> dom gt" unfolding d by auto
    then obtain g where g: "gt q = Some g" by auto
    have "1 \<le> q" "q \<le> int ?M" using that by auto
    then have "nat (q - 1) < ?M" by linarith
    then have len: "nat (q - 1) < length [1 .. int ?M]" by simp
    have "[1 .. int ?M] ! nat (q - 1) = 1 + int (nat (q - 1))"
      using that by (intro nth_upto) auto
    then have nth: "[1 .. int ?M] ! nat (q - 1) = q" using that by simp
    have "questions ?rep ! nat (q - 1) = ?f ([1 .. int ?M] ! nat (q - 1))"
      unfolding r(1) using len by (rule nth_map)
    then have e: "questions ?rep ! nat (q - 1) =
        grade_answer q (case ans q of None \<Rightarrow> no_answer | Some a \<Rightarrow> a) g"
      unfolding nth using g by simp
    show ?thesis
      using g e grade_no_answer [of q g] by (auto split: option.splits)
  qed
  show ?thesis
    using m gt ans d r(2,3) each by blast
qed

text \<open>
  Claim C1, as the code has it. \<open>main\<close> grades the question numbers of
  \<^verbatim>\<open>range(1, 51)\<close> that are keys of the ground truth. So for a ground truth loaded from
  rows that all parse, with question numbers 1..N, and for every list of answers that
  loads, the report holds exactly one result for each question number from 1 to
  \<open>min N 50\<close>, in ascending order, and \<open>total_questions\<close> is \<open>min N 50\<close>, which is N for
  \<open>N \<le> 50\<close>. The result of a question is that of \<open>grade_answer\<close> on the stored answer, or on
  the empty answer text without sources when the answer store has no entry for the
  number; the status is then \<^verbatim>\<open>Skipped\<close> and the final score 0.
\<close>

theorem report_covers_ground_truth:
  assumes rows: "\<forall>r \<in> set (filter (\<lambda>r. Question r \<noteq> []) rows). \<exists>d. row_entry ev ti r = Inr d"
    and items: "\<forall>item \<in> set items.
      item_question item \<noteq> None \<and> item_question_number item \<noteq> None"
  shows "\<exists>rep gt ans.
     main ev ti rows items = Inr rep \<and>
     load_ground_truth ev ti rows = Inr gt \<and>
     load_answers items = Inr ans \<and>
     dom gt = {1 .. int (length (filter (\<lambda>r. Question r \<noteq> []) rows))} \<and>
     map question_num (questions rep) =
       [1 .. int (min (length (filter (\<lambda>r. Question r \<noteq> []) rows)) 50)] \<and>
     total_questions (summary rep) = min (length (filter (\<lambda>r. Question r \<noteq> []) rows)) 50 \<and>
     (\<forall>q \<in> {1 .. int (min (length (filter (\<lambda>r. Question r \<noteq> []) rows)) 50)}.
        \<exists>g. gt q = Some g \<and>
            questions rep ! nat (q - 1) =
              grade_answer q (case ans q of None \<Rightarrow> no_answer | Some a \<Rightarrow> a) g \<and>
            (ans q = None \<longrightarrow>
               questions rep ! nat (q - 1) = grade_answer q no_answer g \<and>
               status (questions rep ! nat (q - 1)) = ''Skipped'' \<and>
               final_score (questions rep ! nat (q - 1)) = 0))"
  using rows items by (rule main_result)

theorem report_covers_ground_truth_witness:
  "\<exists>rep. main example_eval example_int [example_row, example_empty_row, example_row]
       example_items = Inr rep \<and>
     map question_num (questions rep) = [1, 2] \<and>
     total_questions (summary rep) = 2 \<and>
     status (questions rep ! 0) = ''Skipped'' \<and>
     final_score (questions rep ! 0) = 0"
proof -
  let ?rows = "[example_row, example_empty_row, example_row]"
  have kept: "filter (\<lambda>r. Question r \<noteq> []) ?rows = [example_row, example_row]"
    by (simp add: example_row_def example_empty_row_def)
  have rows: "\<forall>r \<in> set (filter (\<lambda>r. Question r \<noteq> []) ?rows).
      \<exists>d. row_entry example_eval example_int r = Inr d"
    unfolding kept
    by (simp add: row_entry_def example_eval_def example_int_def example_row_def)
  have items: "\<forall>item \<in> set example_items.
      item_question item \<noteq> None \<and> item_question_number item \<noteq> None"
    by (simp add: example_items_def)
  from report_covers_ground_truth [OF rows items]
  obtain rep gt ans where m: "main example_eval example_int ?rows example_items = Inr rep"
    and a: "load_answers example_items = Inr ans"
    and n: "map question_num (questions rep) =
        [1 .. int (min (length (filter (\<lambda>r. Question r \<noteq> []) ?rows)) 50)]"
    and t: "total_questions (summary rep) =
        min (length (filter (\<lambda>r. Question r \<noteq> []) ?rows)) 50"
    and e: "\<forall>q \<in> {1 .. int (min (length (filter (\<lambda>r. Question r \<noteq> []) ?rows)) 50)}.
        \<exists>g. gt q = Some g \<and>
            questions rep ! nat (q - 1) =
              grade_answer q (case ans q of None \<Rightarrow> no_answer | Some a \<Rightarrow> a) g \<and>
            (ans q = None \<longrightarrow>
               questions rep ! nat (q - 1) = grade_answer q no_answer g \<and>
               status (questions rep ! nat (q - 1)) = ''Skipped'' \<and>
               final_score (questions rep ! nat (q - 1)) = 0)"
    by blast
  have "ans 1 = None"
    using a by (auto simp: load_answers_def example_items_def item_entry_def)
  moreover have "(1::int) \<in> {1 .. int (min (length (filter (\<lambda>r. Question r \<noteq> []) ?rows)) 50)}"
    unfolding kept by simp
  ultimately have "status (questions rep ! nat (1 - 1)) = ''Skipped'' \<and>
      final_score (questions rep ! nat (1 - 1)) = 0"
    using e by blast
  moreover have "[1 .. int (min (length [example_row, example_row]) 50)] = [1, 2]"
    by (simp add: upto.simps)
  ultimately show ?thesis
    using m n t unfolding kept by simp
qed

text \<open>
  The claim as stated covers every N. For 51 rows the ground truth has the question
  numbers 1..51, and the report holds the results of the questions 1..50 only, with
  \<open>total_questions = 50\<close>.
\<close>

theorem report_stops_at_50:
  "map_sum id dom (load_ground_truth example_eval example_int (replicate 51 example_row)) =
     Inr {1 .. 51} \<and>
   map_sum id (total_questions \<circ> summary)
     (main example_eval example_int (replicate 51 example_row) []) = Inr 50 \<and>
   map_sum id (map question_num \<circ> questions)
     (main example_eval example_int (replicate 51 example_row) []) = Inr [1 .. 50]"
proof -
  let ?rows = "replicate 51 example_row"
  have kept: "filter (\<lambda>r. Question r \<noteq> []) ?rows = ?rows"
    by (simp add: example_row_def)
  have rows: "\<forall>r \<in> set (filter (\<lambda>r. Question r \<noteq> []) ?rows).
      \<exists>d. row_entry example_eval example_int r = Inr d"
    unfolding kept
    by (simp add: row_entry_def example_eval_def example_int_def example_row_def)
  have items: "\<forall>item \<in> set ([] :: answer_item list).
      item_question item \<noteq> None \<and> item_question_number item \<noteq> None"
    by simp
  from main_result [OF rows items]
  obtain rep gt where m: "main example_eval example_int ?rows [] = Inr rep"
    and g: "load_ground_truth example_eval example_int ?rows = Inr gt"
    and d: "dom gt = {1 .. int (length (filter (\<lambda>r. Question r \<noteq> []) ?rows))}"
    and n: "map question_num (questions rep) =
        [1 .. int (min (length (filter (\<lambda>r. Question r \<noteq> []) ?rows)) 50)]"
    and t: "total_questions (summary rep) =
        min (length (filter (\<lambda>r. Question r \<noteq> []) ?rows)) 50"
    by blast
  show ?thesis
    using d n t unfolding m g kept by simp
qed

end
